theory Spec2Isabelle
  imports Main "HOL-Library.Multiset" "HOL-Library.Product_Lexorder"
begin

section \<open>Data model\<close>

text \<open>
  The script \<^verbatim>\<open>analise_constituinte.py\<close> reads \<^verbatim>\<open>dados_constituinte.csv\<close> with
  \<^verbatim>\<open>encoding='latin-1'\<close>, so every character of the table is a code point below 256:
  a \<^typ>\<open>char\<close> is one Latin-1 character and \<^typ>\<open>string\<close> is a Python \<^verbatim>\<open>str\<close> of
  the table. A missing value (\<^verbatim>\<open>NaN\<close>) of a text column is \<^term>\<open>None\<close>.

  The column \<^verbatim>\<open>DATA\<close> changes its type during the run: it is loaded as text and
  \<^verbatim>\<open>analise_temporal\<close> replaces it by parsed dates, so its cells have a type of
  their own. \<^verbatim>\<open>NaN\<close> and \<^verbatim>\<open>NaT\<close> are the one constructor \<open>NaN\<close>: pandas' \<^verbatim>\<open>isnull\<close>
  does not tell them apart.
\<close>

record timestamp =
  year :: int
  month :: nat
  day :: nat

datatype data_cell = NaN | Raw string | Timestamp timestamp

record row =
  SEXO :: "string option"
  FAIXA_ETARIA :: "string option"
  INSTRUCAO :: "string option"
  ESTADO_CIVIL :: "string option"
  UF :: "string option"
  DATA :: data_cell
  SUGESTAO_TEXTO :: "string option"

text \<open>The \<^verbatim>\<open>DataFrame\<close>: its rows in file order; \<^verbatim>\<open>len(df)\<close> is the length of the list.\<close>

type_synonym dataset = "row list"

text \<open>A \<^verbatim>\<open>Series\<close> of counts: index label and value, in the order of the series.\<close>

type_synonym freq = "(string \<times> nat) list"

text \<open>A monthly \<^verbatim>\<open>Period\<close>: year and month, ordered chronologically (lexicographically).\<close>

type_synonym period = "int \<times> nat"

datatype error = ZeroDivisionError | ValueError | AttributeError | IndexError

text \<open>
  What the run leaves behind: the one \<^verbatim>\<open>DataFrame\<close> object \<^verbatim>\<open>df\<close> that the main block
  hands to every analysis (the analyses assign to its columns), and the image files
  written by \<^verbatim>\<open>plt.savefig\<close>.
\<close>

record world =
  frame :: dataset
  saved :: "string set"

section \<open>The library\<close>

text \<open>
  Two operations of pandas are not fixed by its documentation and are parameters of
  the model:
  \<^item> \<^verbatim>\<open>Series.sort_values(ascending=False)\<close>, which \<^verbatim>\<open>value_counts()\<close> applies to the
    table of counts. The documentation promises descending order of the counts; what
    happens to equal counts depends on the sorting algorithm of the library, and is a
    hypothesis of its own where a property needs it.
  \<^item> \<^verbatim>\<open>pd.to_datetime(col, dayfirst=True, errors='coerce')\<close>, a whole-column parser
    (it may infer one format for the column); a value it cannot parse becomes
    \<^verbatim>\<open>NaT\<close>, here \<^term>\<open>None\<close>.
\<close>

record pandas =
  sort_values :: "freq \<Rightarrow> freq"
  to_datetime :: "data_cell list \<Rightarrow> timestamp option list"

text \<open>The documented contract of the descending sort: a rearrangement, counts non-increasing.\<close>

definition sorts_descending :: "pandas \<Rightarrow> bool" where
  "sorts_descending pd \<longleftrightarrow>
     (\<forall>t. mset (sort_values pd t) = mset t \<and>
          sorted_wrt (\<lambda>a b. snd b \<le> snd a) (sort_values pd t))"


definition cell_of :: "timestamp option \<Rightarrow> data_cell" where
  "cell_of d = (case d of None \<Rightarrow> NaN | Some t \<Rightarrow> Timestamp t)"

text \<open>\<^verbatim>\<open>to_datetime\<close> returns a column that already holds dates as it is.\<close>

definition keeps_datetimes :: "pandas \<Rightarrow> bool" where
  "keeps_datetimes pd \<longleftrightarrow> (\<forall>ds. to_datetime pd (map cell_of ds) = ds)"

subsection \<open>Series operations\<close>

text \<open>\<^verbatim>\<open>Series.fillna(v)\<close>.\<close>

definition fillna :: "string \<Rightarrow> string option list \<Rightarrow> string option list" where
  "fillna v col = map (\<lambda>c. case c of None \<Rightarrow> Some v | Some s \<Rightarrow> Some s) col"

text \<open>\<^verbatim>\<open>Series.dropna()\<close>.\<close>

primrec dropna :: "'a option list \<Rightarrow> 'a list" where
  "dropna [] = []"
| "dropna (c # cs) = (case c of None \<Rightarrow> dropna cs | Some s \<Rightarrow> s # dropna cs)"

text \<open>
  Counting in a hash table that keeps its keys in the order they were first met (the
  table behind \<^verbatim>\<open>value_counts\<close>, and \<^verbatim>\<open>collections.Counter\<close>).
\<close>

fun bump :: "'a \<Rightarrow> ('a \<times> nat) list \<Rightarrow> ('a \<times> nat) list" where
  "bump k [] = [(k, 1)]"
| "bump k ((k', c) # t) = (if k = k' then (k', Suc c) # t else (k', c) # bump k t)"

definition tally :: "'a list \<Rightarrow> ('a \<times> nat) list" where
  "tally xs = foldl (\<lambda>t k. bump k t) [] xs"

text \<open>\<^verbatim>\<open>Series.value_counts()\<close>: missing values dropped, counted, sorted by count.\<close>

definition value_counts :: "pandas \<Rightarrow> string option list \<Rightarrow> freq" where
  "value_counts pd col = sort_values pd (tally (dropna col))"

text \<open>\<^verbatim>\<open>Series.head(n)\<close>.\<close>

definition head :: "nat \<Rightarrow> 'a list \<Rightarrow> 'a list" where
  "head n s = take n s"

text \<open>\<^verbatim>\<open>Series.reindex(labels, fill_value=v)\<close>, on a series whose labels are distinct.\<close>

definition reindex :: "string list \<Rightarrow> nat \<Rightarrow> freq \<Rightarrow> freq" where
  "reindex labels v s = map (\<lambda>l. (l, case map_of s l of None \<Rightarrow> v | Some c \<Rightarrow> c)) labels"

text \<open>
  \<^verbatim>\<open>df[name] = series\<close>: the series is aligned on the index of the table: row \<open>i\<close>
  takes the value at position \<open>i\<close>, a row the series does not reach takes the missing
  value, and the table keeps its rows.
\<close>

definition setitem :: "(row \<Rightarrow> 'a \<Rightarrow> row) \<Rightarrow> 'a \<Rightarrow> dataset \<Rightarrow> 'a list \<Rightarrow> dataset" where
  "setitem put na df col =
     map (\<lambda>(i, r). put r (if i < length col then col ! i else na)) (enumerate 0 df)"

text \<open>\<^verbatim>\<open>len(df[df[name] == v])\<close>.\<close>

definition count_eq :: "string option list \<Rightarrow> string \<Rightarrow> nat" where
  "count_eq col v = length (filter (\<lambda>c. c = Some v) col)"

section \<open>The demographic analysis\<close>

definition nao_informado :: string where
  "nao_informado = ''N'' @ [CHR 0xC3] @ ''O INFORMADO''"

definition ordem_faixa :: "string list" where
  "ordem_faixa = [''15 A 19 ANOS'', ''20 A 24 ANOS'', ''25 A 29 ANOS'', ''30 A 39 ANOS'',
                  ''40 A 49 ANOS'', ''50 A 59 ANOS'', ''ACIMA DE 59 ANOS'', nao_informado]"

record demografia =
  sexo_counts :: freq
  faixa_etaria :: freq
  instrucao :: freq
  estado_civil :: freq
  homens :: nat
  mulheres :: nat
  sexo_nao_informado :: nat

text \<open>
  \<^verbatim>\<open>analise_demografica(df)\<close>. The four tables are the series the function charts; the
  figure is saved before the statistics are printed, and the shares printed there
  divide by \<^verbatim>\<open>len(df)\<close>, which raises \<^verbatim>\<open>ZeroDivisionError\<close> on a table without
  rows. The percentages themselves are floating point and are left out.
\<close>

definition analise_demografica :: "pandas \<Rightarrow> world \<Rightarrow> world \<times> (error + demografia)" where
  "analise_demografica pd w =
     (let df1 = setitem (\<lambda>r v. r\<lparr>SEXO := v\<rparr>) None (frame w)
                  (fillna nao_informado (map SEXO (frame w)));
          sexo = value_counts pd (map SEXO df1);
          df2 = setitem (\<lambda>r v. r\<lparr>FAIXA_ETARIA := v\<rparr>) None df1
                  (fillna nao_informado (map FAIXA_ETARIA df1));
          faixa = reindex ordem_faixa 0 (value_counts pd (map FAIXA_ETARIA df2));
          df3 = setitem (\<lambda>r v. r\<lparr>INSTRUCAO := v\<rparr>) None df2
                  (fillna nao_informado (map INSTRUCAO df2));
          instr = head 8 (value_counts pd (map INSTRUCAO df3));
          df4 = setitem (\<lambda>r v. r\<lparr>ESTADO_CIVIL := v\<rparr>) None df3
                  (fillna nao_informado (map ESTADO_CIVIL df3));
          civil = head 6 (value_counts pd (map ESTADO_CIVIL df4));
          w' = \<lparr>frame = df4, saved = insert ''perfil_demografico.png'' (saved w)\<rparr>
      in if length df4 = 0 then (w', Inl ZeroDivisionError)
         else (w', Inr \<lparr>sexo_counts = sexo, faixa_etaria = faixa, instrucao = instr,
                        estado_civil = civil,
                        homens = count_eq (map SEXO df4) ''MASCULINO'',
                        mulheres = count_eq (map SEXO df4) ''FEMININO'',
                        sexo_nao_informado = count_eq (map SEXO df4) nao_informado\<rparr>))"

section \<open>The geographic analysis\<close>

record geografia =
  uf_distribuicao :: freq
  top5 :: freq

text \<open>
  \<^verbatim>\<open>analise_geografica(df)\<close>. The percentages of the five first states divide by
  \<^verbatim>\<open>len(df)\<close> inside a loop over the counted states, which is empty when the table is.
\<close>

definition analise_geografica :: "pandas \<Rightarrow> world \<Rightarrow> world \<times> (error + geografia)" where
  "analise_geografica pd w =
     (let df1 = setitem (\<lambda>r v. r\<lparr>UF := v\<rparr>) None (frame w)
                  (fillna nao_informado (map UF (frame w)));
          uf = head 10 (value_counts pd (map UF df1));
          w' = \<lparr>frame = df1, saved = insert ''distribuicao_geografica.png'' (saved w)\<rparr>
      in (w', Inr \<lparr>uf_distribuicao = uf, top5 = head 5 uf\<rparr>))"

section \<open>The temporal analysis\<close>

definition to_period_M :: "timestamp \<Rightarrow> period" where
  "to_period_M t = (year t, month t)"

text \<open>
  \<^verbatim>\<open>series.dt.to_period('M')\<close>: the \<^verbatim>\<open>.dt\<close> accessor exists on a column of dates only
  and raises \<^verbatim>\<open>AttributeError\<close> on a column that still holds text.
\<close>

definition is_raw :: "data_cell \<Rightarrow> bool" where
  "is_raw c = (case c of Raw s \<Rightarrow> True | _ \<Rightarrow> False)"

definition dt_to_period :: "data_cell list \<Rightarrow> error + period option list" where
  "dt_to_period col =
     (if list_ex is_raw col then Inl AttributeError
      else Inr (map (\<lambda>c. case c of Timestamp t \<Rightarrow> Some (to_period_M t) | _ \<Rightarrow> None) col))"

text \<open>
  \<^verbatim>\<open>df.groupby(keys).size()\<close>: one entry for each key that occurs, in ascending order
  of the keys; rows whose key is missing belong to no group.
\<close>

definition groupby_size :: "period option list \<Rightarrow> (period \<times> nat) list" where
  "groupby_size keys =
     (let ks = dropna keys in map (\<lambda>k. (k, count_list ks k)) (sort (remdups ks)))"

text \<open>
  \<^verbatim>\<open>Series.idxmax()\<close>: the label of the first occurrence of the greatest value;
  \<^verbatim>\<open>ValueError\<close> on an empty series. \<^verbatim>\<open>Series.max()\<close> is the greatest value.
\<close>

fun first_max :: "'k \<times> nat \<Rightarrow> ('k \<times> nat) list \<Rightarrow> 'k \<times> nat" where
  "first_max b [] = b"
| "first_max b (x # xs) = first_max (if snd b < snd x then x else b) xs"

fun idxmax :: "('k \<times> nat) list \<Rightarrow> error + 'k" where
  "idxmax [] = Inl ValueError"
| "idxmax (x # xs) = Inr (fst (first_max x xs))"

fun series_max :: "('k \<times> nat) list \<Rightarrow> nat" where
  "series_max [] = 0"
| "series_max (x # xs) = max (snd x) (series_max xs)"

text \<open>\<^verbatim>\<open>list.index(x)\<close>: the first position of \<open>x\<close>, \<^verbatim>\<open>ValueError\<close> when it is absent.\<close>

fun list_index :: "'a list \<Rightarrow> 'a \<Rightarrow> error + nat" where
  "list_index [] x = Inl ValueError"
| "list_index (y # ys) x =
     (if y = x then Inr 0
      else case list_index ys x of Inl e \<Rightarrow> Inl e | Inr i \<Rightarrow> Inr (Suc i))"

record tempo =
  sugestoes_por_mes :: "(period \<times> nat) list"
  mes_pico :: period
  valor_pico :: nat
  pico_index :: nat

text \<open>
  \<^verbatim>\<open>analise_temporal(df)\<close>. The peak is looked up before the figure is saved, so a run
  that raises there leaves the converted column and no image.
\<close>

definition analise_temporal :: "pandas \<Rightarrow> world \<Rightarrow> world \<times> (error + tempo)" where
  "analise_temporal pd w =
     (let df1 = setitem (\<lambda>r v. r\<lparr>DATA := v\<rparr>) NaN (frame w)
                  (map cell_of (to_datetime pd (map DATA (frame w))));
          w1 = w\<lparr>frame := df1\<rparr>
      in case dt_to_period (map DATA df1) of
           Inl e \<Rightarrow> (w1, Inl e)
         | Inr keys \<Rightarrow>
             (let por_mes = groupby_size keys
              in case idxmax por_mes of
                   Inl e \<Rightarrow> (w1, Inl e)
                 | Inr pico \<Rightarrow>
                     (case list_index (map fst por_mes) pico of
                        Inl e \<Rightarrow> (w1, Inl e)
                      | Inr i \<Rightarrow>
                          (w1\<lparr>saved := insert ''evolucao_temporal.png'' (saved w1)\<rparr>,
                           Inr \<lparr>sugestoes_por_mes = por_mes, mes_pico = pico,
                                valor_pico = series_max por_mes, pico_index = i\<rparr>))))"

section \<open>The content analysis\<close>

subsection \<open>Characters\<close>

text \<open>
  Python's \<^verbatim>\<open>\w\<close> on a \<^verbatim>\<open>str\<close> is \<^verbatim>\<open>ch.isalnum() or ch == '_'\<close>. Below 256 these are
  the ASCII digits and letters, the underscore, the ordinal indicators, the
  superscript digits, the micro sign, the three vulgar fractions, and the accented
  letters (all of \<open>0xC0\<close> to \<open>0xFF\<close> but the signs \<open>0xD7\<close> and \<open>0xF7\<close>).
\<close>

definition is_word :: "char \<Rightarrow> bool" where
  "is_word c =
     (let n = (of_char c :: nat)
      in (48 \<le> n \<and> n \<le> 57) \<or> (65 \<le> n \<and> n \<le> 90) \<or> n = 95 \<or> (97 \<le> n \<and> n \<le> 122) \<or>
         n = 170 \<or> n = 178 \<or> n = 179 \<or> n = 181 \<or> n = 185 \<or> n = 186 \<or>
         (188 \<le> n \<and> n \<le> 190) \<or> (192 \<le> n \<and> n \<le> 214) \<or> (216 \<le> n \<and> n \<le> 246) \<or>
         (248 \<le> n \<and> n \<le> 255))"

text \<open>The character class \<^verbatim>\<open>[a-z\<close>...\<^verbatim>\<open>]\<close> of the pattern: \<open>a\<close> to \<open>z\<close> and thirteen accented letters.\<close>

definition acentuadas :: "char list" where
  "acentuadas = [CHR 0xE1, CHR 0xE9, CHR 0xED, CHR 0xF3, CHR 0xFA, CHR 0xE2, CHR 0xEA,
                 CHR 0xEE, CHR 0xF4, CHR 0xFB, CHR 0xE3, CHR 0xF5, CHR 0xE7]"

definition letra :: "char \<Rightarrow> bool" where
  "letra c = ((97 \<le> (of_char c :: nat) \<and> (of_char c :: nat) \<le> 122) \<or> c \<in> set acentuadas)"

text \<open>\<^verbatim>\<open>str.lower()\<close> below 256: \<open>A\<close> to \<open>Z\<close>, and \<open>0xC0\<close> to \<open>0xDE\<close> but the sign \<open>0xD7\<close>.\<close>

definition lower_char :: "char \<Rightarrow> char" where
  "lower_char c =
     (let n = (of_char c :: nat)
      in if (65 \<le> n \<and> n \<le> 90) \<or> (192 \<le> n \<and> n \<le> 222 \<and> n \<noteq> 215) then char_of (n + 32) else c)"

definition lower :: "string \<Rightarrow> string" where
  "lower s = map lower_char s"

subsection \<open>re.findall\<close>

text \<open>
  \<^verbatim>\<open>\b\<close> holds at a position when exactly one of the characters before and after it is
  a word character; the ends of the text count as not a word character.
\<close>

definition word_boundary :: "char option \<Rightarrow> char option \<Rightarrow> bool" where
  "word_boundary prev nxt =
     ((case prev of None \<Rightarrow> False | Some c \<Rightarrow> is_word c) \<noteq>
      (case nxt of None \<Rightarrow> False | Some c \<Rightarrow> is_word c))"

text \<open>
  The greedy \<^verbatim>\<open>{4,}\<close>: the engine takes the \<open>k\<close> letters it found, tests the closing
  \<^verbatim>\<open>\b\<close>, and gives one letter back at a time while at least four remain.
\<close>

fun backtrack :: "string \<Rightarrow> nat \<Rightarrow> string option" where
  "backtrack s k =
     (if k < 4 then None
      else if word_boundary (Some (s ! (k - 1))) (if k < length s then Some (s ! k) else None)
           then Some (take k s)
           else backtrack s (k - 1))"

declare backtrack.simps [simp del]

text \<open>One attempt of the pattern at a position: \<open>prev\<close> is the character left of it.\<close>

definition match_at :: "char option \<Rightarrow> string \<Rightarrow> string option" where
  "match_at prev s =
     (if word_boundary prev (case s of [] \<Rightarrow> None | c # _ \<Rightarrow> Some c)
      then backtrack s (length (takeWhile letra s))
      else None)"

text \<open>
  The scan of \<^verbatim>\<open>re.findall\<close>: from left to right, a match is taken where the pattern
  matches and the scan goes on behind it, otherwise one character further.
\<close>

function findall_from :: "char option \<Rightarrow> string \<Rightarrow> string list" where
  "findall_from prev [] = []"
| "findall_from prev (c # cs) =
     (case match_at prev (c # cs) of
        Some m \<Rightarrow> m # findall_from (Some (last m)) (drop (length m) (c # cs))
      | None \<Rightarrow> findall_from (Some c) cs)"
  by pat_completeness auto
termination
proof (relation "measure (\<lambda>(prev, s). length s)")
  show "wf (measure (\<lambda>(prev, s). length s))" by simp
next
  fix prev :: "char option" and c :: char and cs :: string and m :: string
  assume m: "match_at prev (c # cs) = Some m"
  have bt: "\<And>k r. backtrack (c # cs) k = Some r \<Longrightarrow> 4 \<le> length r \<or> length (c # cs) \<le> length r"
  proof -
    fix k r show "backtrack (c # cs) k = Some r \<Longrightarrow> 4 \<le> length r \<or> length (c # cs) \<le> length r"
    proof (induction k)
      case 0
      then show ?case by (simp add: backtrack.simps [of _ 0])
    next
      case (Suc k)
      then show ?case
        by (auto simp add: backtrack.simps [of _ "Suc k"] split: if_splits)
    qed
  qed
  from m have "backtrack (c # cs) (length (takeWhile letra (c # cs))) = Some m"
    by (simp add: match_at_def split: if_splits)
  from bt [OF this] have "0 < length m" by auto
  then show "((Some (last m), drop (length m) (c # cs)), (prev, c # cs))
               \<in> measure (\<lambda>(prev, s). length s)"
    by simp
next
  fix prev :: "char option" and c :: char and cs :: string
  show "((Some c, cs), (prev, c # cs)) \<in> measure (\<lambda>(prev, s). length s)" by simp
qed

definition findall :: "string \<Rightarrow> string list" where
  "findall s = findall_from None s"

subsection \<open>Counting the words\<close>

text \<open>\<^verbatim>\<open>' '.join(textos)\<close>.\<close>

fun join :: "string \<Rightarrow> string list \<Rightarrow> string" where
  "join sep [] = []"
| "join sep [x] = x"
| "join sep (x # y # ys) = x @ sep @ join sep (y # ys)"

definition stop_words :: "string list" where
  "stop_words =
     [''que'', ''com'', ''para'', ''uma'', ''mais'', ''como'', ''sobre'', ''seus'', ''este'',
      ''esta'', ''ser'', ''seja'', ''s'' @ [CHR 0xE3] @ ''o'', ''mas'', ''muito'', ''nosso'',
      ''nossa'', ''pelos'', ''pelas'', ''essa'', ''esse'', ''isso'', ''aquele'', ''aquela'',
      ''entre'', ''atrav'' @ [CHR 0xE9] @ ''s'', ''quando'']"

text \<open>
  \<^verbatim>\<open>Counter.most_common(n)\<close>: the \<open>n\<close> first entries of the counts sorted by count,
  greatest first, entries of equal count in the order they were first met (Python
  documents this order; its sort is stable, which the insertion sort
  \<^const>\<open>sort_key\<close> is too).
\<close>

definition most_common :: "nat \<Rightarrow> ('a \<times> nat) list \<Rightarrow> ('a \<times> nat) list" where
  "most_common n t = take n (sort_key (\<lambda>e. - int (snd e)) t)"

text \<open>The local variables of \<^verbatim>\<open>analise_conteudo\<close>, which reads the table and assigns nothing.\<close>

definition textos :: "dataset \<Rightarrow> string list" where
  "textos df = dropna (map SUGESTAO_TEXTO df)"

definition todos_textos :: "dataset \<Rightarrow> string" where
  "todos_textos df = join '' '' (textos df)"

definition palavras :: "dataset \<Rightarrow> string list" where
  "palavras df = findall (lower (todos_textos df))"

definition palavras_filtradas :: "dataset \<Rightarrow> string list" where
  "palavras_filtradas df = filter (\<lambda>p. p \<notin> set stop_words) (palavras df)"

definition contagem :: "dataset \<Rightarrow> freq" where
  "contagem df = tally (palavras_filtradas df)"

definition top_palavras :: "dataset \<Rightarrow> freq" where
  "top_palavras df = most_common 15 (contagem df)"

text \<open>
  \<^verbatim>\<open>palavras, frequencias = zip(*top_palavras)\<close>: \<^verbatim>\<open>zip\<close> of no argument yields nothing,
  and unpacking nothing into two names raises \<^verbatim>\<open>ValueError\<close>.
\<close>

fun unzip :: "('a \<times> 'b) list \<Rightarrow> error + ('a list \<times> 'b list)" where
  "unzip [] = Inl ValueError"
| "unzip (x # xs) = Inr (map fst (x # xs), map snd (x # xs))"

record conteudo =
  rotulos :: "string list"
  frequencias :: "nat list"
  palavras_chave :: freq

definition analise_conteudo :: "world \<Rightarrow> world \<times> (error + conteudo)" where
  "analise_conteudo w =
     (case unzip (top_palavras (frame w)) of
        Inl e \<Rightarrow> (w, Inl e)
      | Inr (ps, fs) \<Rightarrow>
          (w\<lparr>saved := insert ''palavras_frequentes.png'' (saved w)\<rparr>,
           Inr \<lparr>rotulos = ps, frequencias = fs,
                palavras_chave = take 10 (top_palavras (frame w))\<rparr>))"

section \<open>Loading, profiling and the summary\<close>

text \<open>
  What the loader meets: whether \<^verbatim>\<open>os.path.exists\<close> finds the file, and what
  \<^verbatim>\<open>pd.read_csv\<close> does with it: it raises an exception (its text is kept) or returns
  the table.
\<close>

datatype read_result = Raises string | Returns dataset

record filesystem =
  path_exists :: bool
  read_csv :: read_result

text \<open>
  The lines printed by the loader and by the main block. The model keeps the seven
  columns the analyses read, so the number of columns printed by the loader is not
  part of the line.
\<close>

datatype message =
    Iniciando_analise
  | Analisando_dados
  | Arquivo_nao_encontrado
  | Certifique_se
  | Dataset_carregado
  | Total_de_registros nat
  | Total_de_colunas
  | Erro_ao_carregar string
  | Analise_concluida
  | Graficos_salvos
  | Nao_foi_possivel

text \<open>
  The lines that report a failure: the three that the source prints with the cross
  mark, at lines 28 and 39 in the loader and at line 306 in the main block.
\<close>

fun falha :: "message \<Rightarrow> bool" where
  "falha Arquivo_nao_encontrado = True"
| "falha (Erro_ao_carregar e) = True"
| "falha Nao_foi_possivel = True"
| "falha m = False"

text \<open>The body of the \<^verbatim>\<open>try\<close> block: \<open>Inl\<close> is an exception raised inside it.\<close>

definition carregar_try :: "filesystem \<Rightarrow> string + (dataset option \<times> message list)" where
  "carregar_try fs =
     (if \<not> path_exists fs then Inr (None, [Arquivo_nao_encontrado, Certifique_se])
      else case read_csv fs of
             Raises e \<Rightarrow> Inl e
           | Returns df \<Rightarrow>
               Inr (Some df, [Dataset_carregado, Total_de_registros (length df), Total_de_colunas]))"

text \<open>
  \<^verbatim>\<open>carregar_dados()\<close>: \<open>Inl\<close> would be an exception that leaves the function; the
  handler \<^verbatim>\<open>except Exception\<close> turns what the body raises into a printed line and
  the result \<^verbatim>\<open>None\<close>.
\<close>

definition carregar_dados :: "filesystem \<Rightarrow> string + (dataset option \<times> message list)" where
  "carregar_dados fs =
     (case carregar_try fs of
        Inl e \<Rightarrow> Inr (None, [Erro_ao_carregar e])
      | Inr r \<Rightarrow> Inr r)"

text \<open>
  \<^verbatim>\<open>analise_preliminar(df)\<close>: \<^verbatim>\<open>df.isnull().sum()\<close> counts the missing values of each
  column, and the columns with at least one are listed. The percentages are floating
  point and are left out.
\<close>

definition isnull_sum :: "dataset \<Rightarrow> (string \<times> nat) list" where
  "isnull_sum df =
     [(''SEXO'', length (filter (\<lambda>r. SEXO r = None) df)),
      (''FAIXA ET'' @ [CHR 0xC1] @ ''RIA'', length (filter (\<lambda>r. FAIXA_ETARIA r = None) df)),
      (''INSTRUCAO'', length (filter (\<lambda>r. INSTRUCAO r = None) df)),
      (''ESTADO CIVIL'', length (filter (\<lambda>r. ESTADO_CIVIL r = None) df)),
      (''UF'', length (filter (\<lambda>r. UF r = None) df)),
      (''DATA'', length (filter (\<lambda>r. DATA r = NaN) df)),
      (''SUGESTAO.TEXTO'', length (filter (\<lambda>r. SUGESTAO_TEXTO r = None) df))]"

definition analise_preliminar :: "dataset \<Rightarrow> (string \<times> nat) list" where
  "analise_preliminar df = filter (\<lambda>e. 0 < snd e) (isnull_sum df)"

record resumo =
  total_sugestoes :: nat
  participantes_masculinos :: nat
  participantes_femininos :: nat
  estado_mais_ativo :: string
  sugestoes_estado_mais_ativo :: nat
  faixa_mais_comum :: string

text \<open>
  \<^verbatim>\<open>resumo_final(df)\<close>: \<^verbatim>\<open>.index[0]\<close> and \<^verbatim>\<open>.iloc[0]\<close> raise \<^verbatim>\<open>IndexError\<close> on an empty
  series, and the shares divide by the number of rows.
\<close>

definition resumo_final :: "pandas \<Rightarrow> dataset \<Rightarrow> error + resumo" where
  "resumo_final pd df =
     (case value_counts pd (map UF df) of
        [] \<Rightarrow> Inl IndexError
      | uf # _ \<Rightarrow>
          (case value_counts pd (map FAIXA_ETARIA df) of
             [] \<Rightarrow> Inl IndexError
           | fx # _ \<Rightarrow>
               if length df = 0 then Inl ZeroDivisionError
               else Inr \<lparr>total_sugestoes = length df,
                         participantes_masculinos = count_eq (map SEXO df) ''MASCULINO'',
                         participantes_femininos = count_eq (map SEXO df) ''FEMININO'',
                         estado_mais_ativo = fst uf,
                         sugestoes_estado_mais_ativo = snd uf,
                         faixa_mais_comum = fst fx\<rparr>))"

section \<open>The main block\<close>

record relatorio =
  faltantes :: "(string \<times> nat) list"
  demografica :: demografia
  geografica :: geografia
  temporal :: tempo
  conteudo_rel :: conteudo
  resumo_rel :: resumo

text \<open>
  A run of the script: the lines printed by the loader and the main block, the image
  files on disk at the end, and what the analyses did: \<open>None\<close> when they were not
  called, \<open>Some (Inl e)\<close> when one of them raised \<open>e\<close> (which ends the script),
  \<open>Some (Inr r)\<close> when all of them returned.
\<close>

record run =
  console :: "message list"
  images :: "string set"
  analyses :: "(error + relatorio) option"

definition analisar :: "pandas \<Rightarrow> dataset \<Rightarrow> string set \<times> (error + relatorio)" where
  "analisar pd df0 =
     (let falt = analise_preliminar df0
      in case analise_demografica pd \<lparr>frame = df0, saved = {}\<rparr> of
           (w1, Inl e) \<Rightarrow> (saved w1, Inl e)
         | (w1, Inr dem) \<Rightarrow>
        (case analise_geografica pd w1 of
           (w2, Inl e) \<Rightarrow> (saved w2, Inl e)
         | (w2, Inr geo) \<Rightarrow>
        (case analise_temporal pd w2 of
           (w3, Inl e) \<Rightarrow> (saved w3, Inl e)
         | (w3, Inr tmp) \<Rightarrow>
        (case analise_conteudo w3 of
           (w4, Inl e) \<Rightarrow> (saved w4, Inl e)
         | (w4, Inr cnt) \<Rightarrow>
        (case resumo_final pd (frame w4) of
           Inl e \<Rightarrow> (saved w4, Inl e)
         | Inr res \<Rightarrow>
             (saved w4,
              Inr \<lparr>faltantes = falt, demografica = dem, geografica = geo, temporal = tmp,
                   conteudo_rel = cnt, resumo_rel = res\<rparr>))))))"

text \<open>
  The script from its first line: \<open>Inl\<close> would be an exception escaping from the
  loader into the main block.
\<close>

definition main :: "pandas \<Rightarrow> filesystem \<Rightarrow> string + run" where
  "main pd fs =
     (case carregar_dados fs of
        Inl e \<Rightarrow> Inl e
      | Inr (None, lines) \<Rightarrow>
          Inr \<lparr>console = [Iniciando_analise, Analisando_dados] @ lines @ [Nao_foi_possivel],
               images = {}, analyses = None\<rparr>
      | Inr (Some df0, lines) \<Rightarrow>
          (case analisar pd df0 of
             (pngs, Inl e) \<Rightarrow>
               Inr \<lparr>console = [Iniciando_analise, Analisando_dados] @ lines,
                    images = pngs, analyses = Some (Inl e)\<rparr>
           | (pngs, Inr r) \<Rightarrow>
               Inr \<lparr>console = [Iniciando_analise, Analisando_dados] @ lines
                               @ [Analise_concluida, Graficos_salvos],
                    images = pngs, analyses = Some (Inr r)\<rparr>))"

section \<open>The four analyses in any order\<close>

datatype analise = Demografica | Geografica | Temporal | Conteudo

datatype saida = Dem demografia | Geo geografia | Tmp tempo | Cnt conteudo

definition lift_saida :: "('a \<Rightarrow> saida) \<Rightarrow> world \<times> (error + 'a) \<Rightarrow> world \<times> (error + saida)" where
  "lift_saida c r = (fst r, case snd r of Inl e \<Rightarrow> Inl e | Inr x \<Rightarrow> Inr (c x))"

fun chamar :: "pandas \<Rightarrow> analise \<Rightarrow> world \<Rightarrow> world \<times> (error + saida)" where
  "chamar pd Demografica w = lift_saida Dem (analise_demografica pd w)"
| "chamar pd Geografica w = lift_saida Geo (analise_geografica pd w)"
| "chamar pd Temporal w = lift_saida Tmp (analise_temporal pd w)"
| "chamar pd Conteudo w = lift_saida Cnt (analise_conteudo w)"

text \<open>
  The analyses of a list called one after the other on the same table, as the main
  block calls them; an exception ends the sequence.
\<close>

fun executar :: "pandas \<Rightarrow> analise list \<Rightarrow> world \<Rightarrow> world \<times> (error + saida list)" where
  "executar pd [] w = (w, Inr [])"
| "executar pd (a # as) w =
     (case chamar pd a w of
        (w1, Inl e) \<Rightarrow> (w1, Inl e)
      | (w1, Inr out) \<Rightarrow>
          (case executar pd as w1 of
             (w2, Inl e) \<Rightarrow> (w2, Inl e)
           | (w2, Inr outs) \<Rightarrow> (w2, Inr (out # outs))))"

section \<open>An instance of the library\<close>

text \<open>
  For concrete runs: a stable descending sort, and a parser of the one format
  \<^verbatim>\<open>DD/MM/YYYY\<close> that checks the calendar; everything else is \<^verbatim>\<open>NaT\<close>, and a column
  of dates is returned as it is.
\<close>

definition digit :: "char \<Rightarrow> nat option" where
  "digit c = (let n = (of_char c :: nat) in if 48 \<le> n \<and> n \<le> 57 then Some (n - 48) else None)"

definition days_in_month :: "nat \<Rightarrow> nat \<Rightarrow> nat" where
  "days_in_month y m =
     (if m = 2 then (if y mod 4 = 0 \<and> (y mod 100 \<noteq> 0 \<or> y mod 400 = 0) then 29 else 28)
      else if m = 4 \<or> m = 6 \<or> m = 9 \<or> m = 11 then 30 else 31)"

definition parse_dmy :: "string \<Rightarrow> timestamp option" where
  "parse_dmy s =
     (case s of
        [d1, d0, s1, m1, m0, s2, y3, y2, y1, y0] \<Rightarrow>
          (case map digit [d1, d0, m1, m0, y3, y2, y1, y0] of
             [Some a, Some b, Some c, Some d, Some e, Some f, Some g, Some h] \<Rightarrow>
               (let dd = 10 * a + b; mm = 10 * c + d; yy = 1000 * e + 100 * f + 10 * g + h
                in if s1 = CHR ''/'' \<and> s2 = CHR ''/'' \<and> 1 \<le> mm \<and> mm \<le> 12 \<and> 1 \<le> dd \<and>
                      dd \<le> days_in_month yy mm \<and> 1 \<le> yy
                   then Some \<lparr>year = int yy, month = mm, day = dd\<rparr> else None)
           | _ \<Rightarrow> None)
      | _ \<Rightarrow> None)"

definition to_datetime_dmy :: "data_cell list \<Rightarrow> timestamp option list" where
  "to_datetime_dmy col =
     map (\<lambda>c. case c of NaN \<Rightarrow> None | Raw s \<Rightarrow> parse_dmy s | Timestamp t \<Rightarrow> Some t) col"

definition pandas_stable :: pandas where
  "pandas_stable = \<lparr>sort_values = sort_key (\<lambda>e. - int (snd e)), to_datetime = to_datetime_dmy\<rparr>"

section \<open>Example tables\<close>

definition vazia :: row where
  "vazia = \<lparr>SEXO = None, FAIXA_ETARIA = None, INSTRUCAO = None, ESTADO_CIVIL = None,
             UF = None, DATA = NaN, SUGESTAO_TEXTO = None\<rparr>"

definition povo :: row where
  "povo = vazia\<lparr>SUGESTAO_TEXTO := Some ''O povo tem direito''\<rparr>"

definition jovens :: dataset where
  "jovens = [vazia\<lparr>FAIXA_ETARIA := Some ''20 A 24 ANOS''\<rparr>, vazia]"

definition civis :: dataset where
  "civis = map (\<lambda>s. vazia\<lparr>ESTADO_CIVIL := Some s\<rparr>)
             [''SOLTEIRO'', ''CASADO'', ''VIUVO'', ''DIVORCIADO'', ''DESQUITADO'', ''SEPARADO'',
              ''OUTROS'']"


definition janeiro_marco :: dataset where
  "janeiro_marco = [povo\<lparr>DATA := Raw ''15/01/1986''\<rparr>, povo\<lparr>DATA := Raw ''20/03/1986''\<rparr>]"

definition sem_data :: dataset where
  "sem_data = [povo\<lparr>DATA := Raw ''15/01/1986''\<rparr>, povo\<lparr>DATA := Raw ''sem data''\<rparr>]"

section \<open>Facts about the series operations\<close>

lemma length_setitem: "length (setitem put na df col) = length df"
  by (simp add: setitem_def)

lemma setitem_map: "setitem put na df (map f df) = map (\<lambda>r. put r (f r)) df"
  by (rule nth_equalityI) (simp_all add: setitem_def nth_enumerate_eq)

lemma bump_keys: "map fst (bump k t) = (if k \<in> fst ` set t then map fst t else map fst t @ [k])"
  by (induction t) force+

lemma bump_sum: "sum_list (map snd (bump k t)) = Suc (sum_list (map snd t))"
  by (induction t) auto

lemma foldl_bump_Nil: "foldl (\<lambda>t k. bump k t) t xs = [] \<longleftrightarrow> t = [] \<and> xs = []"
proof (induction xs arbitrary: t)
  case Nil
  then show ?case by simp
next
  case (Cons x xs)
  have "bump x t \<noteq> []" by (cases t) (auto split: if_splits)
  with Cons show ?case by simp
qed

lemma tally_Nil: "tally xs = [] \<longleftrightarrow> xs = []"
  by (simp add: tally_def foldl_bump_Nil)

lemma most_common_Nil: "0 < n \<Longrightarrow> most_common n t = [] \<longleftrightarrow> t = []"
  by (auto simp: most_common_def take_eq_Nil simp flip: length_0_conv)

lemma dropna_all_None: "\<forall>c\<in>set col. c = None \<Longrightarrow> dropna col = []"
  by (induction col) auto

section \<open>The content analysis without words\<close>

lemma top_palavras_Nil: "top_palavras df = [] \<longleftrightarrow> palavras_filtradas df = []"
  by (simp add: top_palavras_def contagem_def most_common_Nil tally_Nil)

lemma no_text_no_words:
  assumes "\<forall>r\<in>set df. SUGESTAO_TEXTO r = None"
  shows "palavras_filtradas df = []"
proof -
  have "textos df = []"
    unfolding textos_def using assms by (intro dropna_all_None) auto
  then show ?thesis
    by (simp add: palavras_filtradas_def palavras_def todos_textos_def lower_def findall_def)
qed

lemma analise_conteudo_empty:
  "palavras_filtradas (frame w) = [] \<Longrightarrow> analise_conteudo w = (w, Inl ValueError)"
  using top_palavras_Nil [of "frame w"] by (simp add: analise_conteudo_def)

lemma analise_conteudo_nonempty:
  assumes "palavras_filtradas (frame w) \<noteq> []"
  shows "analise_conteudo w =
           (w\<lparr>saved := insert ''palavras_frequentes.png'' (saved w)\<rparr>,
            Inr \<lparr>rotulos = map fst (top_palavras (frame w)),
                 frequencias = map snd (top_palavras (frame w)),
                 palavras_chave = take 10 (top_palavras (frame w))\<rparr>)"
proof -
  from assms have "top_palavras (frame w) \<noteq> []" by (simp add: top_palavras_Nil)
  then obtain x xs where "top_palavras (frame w) = x # xs"
    by (cases "top_palavras (frame w)") auto
  then show ?thesis by (simp add: analise_conteudo_def)
qed

lemma palavras_povo: "palavras [povo] = [''povo'', ''direito'']"
  by code_simp

lemma palavras_filtradas_povo: "palavras_filtradas [povo] = [''povo'', ''direito'']"
  by (simp add: palavras_filtradas_def palavras_povo stop_words_def)

text \<open>
  C10. When the text column is entirely missing, or when no word of four letters or
  more is left after the stop words are removed, \<^verbatim>\<open>analise_conteudo\<close> raises
  \<^verbatim>\<open>ValueError\<close> at the unpacking of the empty list \<^verbatim>\<open>top_palavras\<close>: it leaves the
  table and the files as they were and returns no result, not an empty one. It returns
  normally only when at least one word has been counted.
\<close>

theorem conteudo_raises_without_tokens:
  "((\<forall>r\<in>set (frame w). SUGESTAO_TEXTO r = None) \<or> palavras_filtradas (frame w) = []
      \<longrightarrow> analise_conteudo w = (w, Inl ValueError)) \<and>
   ((\<exists>out. snd (analise_conteudo w) = Inr out) \<longrightarrow> contagem (frame w) \<noteq> [])"
proof (intro conjI impI)
  assume "(\<forall>r\<in>set (frame w). SUGESTAO_TEXTO r = None) \<or> palavras_filtradas (frame w) = []"
  then have "palavras_filtradas (frame w) = []" using no_text_no_words by blast
  then show "analise_conteudo w = (w, Inl ValueError)" by (rule analise_conteudo_empty)
next
  assume "\<exists>out. snd (analise_conteudo w) = Inr out"
  then have "palavras_filtradas (frame w) \<noteq> []"
    using analise_conteudo_empty [of w] by auto
  then show "contagem (frame w) \<noteq> []" by (simp add: contagem_def tally_Nil)
qed

theorem conteudo_raises_without_tokens_witness:
  "analise_conteudo \<lparr>frame = [vazia], saved = {}\<rparr> = (\<lparr>frame = [vazia], saved = {}\<rparr>, Inl ValueError) \<and>
   (\<exists>out. snd (analise_conteudo \<lparr>frame = [povo], saved = {}\<rparr>) = Inr out) \<and>
   contagem [povo] \<noteq> []"
proof -
  have a: "\<forall>r\<in>set (frame \<lparr>frame = [vazia], saved = {}\<rparr>). SUGESTAO_TEXTO r = None"
    by (simp add: vazia_def)
  have b: "\<exists>out. snd (analise_conteudo \<lparr>frame = [povo], saved = {}\<rparr>) = Inr out"
    by (simp add: analise_conteudo_nonempty palavras_filtradas_povo)
  show ?thesis
    using conteudo_raises_without_tokens [of "\<lparr>frame = [vazia], saved = {}\<rparr>"]
      conteudo_raises_without_tokens [of "\<lparr>frame = [povo], saved = {}\<rparr>"] a b
    by simp
qed

section \<open>A failed load\<close>

text \<open>
  C6, as the code has it. When the file is missing, or when \<^verbatim>\<open>pd.read_csv\<close> raises
  whatever exception, \<^verbatim>\<open>carregar_dados\<close> raises nothing into the main block: it prints
  its diagnostic (the line about the missing file with its hint, or the line with the
  text of the exception) and returns \<^verbatim>\<open>None\<close>. The main block then prints a line of
  its own that the data could not be loaded, so the failure is reported twice, first
  by the loader and then by the main block, and the script stops: no analysis is
  called and no image is written.
\<close>

theorem load_failure_halts:
  assumes "\<not> path_exists fs \<or> read_csv fs = Raises e"
  shows "carregar_dados fs =
           Inr (None, if \<not> path_exists fs then [Arquivo_nao_encontrado, Certifique_se]
                      else [Erro_ao_carregar e]) \<and>
         main pd fs =
           Inr \<lparr>console = [Iniciando_analise, Analisando_dados]
                           @ (if \<not> path_exists fs then [Arquivo_nao_encontrado, Certifique_se]
                              else [Erro_ao_carregar e])
                           @ [Nao_foi_possivel],
                images = {}, analyses = None\<rparr> \<and>
         (case main pd fs of
            Inl x \<Rightarrow> False
          | Inr r \<Rightarrow>
              filter falha (console r) =
                [if \<not> path_exists fs then Arquivo_nao_encontrado else Erro_ao_carregar e,
                 Nao_foi_possivel])"
  using assms by (auto simp: carregar_dados_def carregar_try_def main_def)

theorem load_failure_halts_counterexample:
  "(case main pandas_stable \<lparr>path_exists = False, read_csv = Returns [povo]\<rparr> of
      Inl x \<Rightarrow> False
    | Inr r \<Rightarrow>
        console r = [Iniciando_analise, Analisando_dados, Arquivo_nao_encontrado, Certifique_se,
                     Nao_foi_possivel] \<and>
        filter falha (console r) = [Arquivo_nao_encontrado, Nao_foi_possivel] \<and>
        length (filter falha (console r)) \<noteq> 1)"
  by (simp add: carregar_dados_def carregar_try_def main_def)

theorem load_failure_halts_witness:
  "main pandas_stable \<lparr>path_exists = False, read_csv = Returns [povo]\<rparr> =
     Inr \<lparr>console = [Iniciando_analise, Analisando_dados, Arquivo_nao_encontrado, Certifique_se,
                     Nao_foi_possivel],
          images = {}, analyses = None\<rparr> \<and>
   main pandas_stable \<lparr>path_exists = True, read_csv = Raises ''Permission denied''\<rparr> =
     Inr \<lparr>console = [Iniciando_analise, Analisando_dados, Erro_ao_carregar ''Permission denied'',
                     Nao_foi_possivel],
          images = {}, analyses = None\<rparr>"
  using load_failure_halts [of "\<lparr>path_exists = False, read_csv = Returns [povo]\<rparr>" "''x''" pandas_stable]
    load_failure_halts [of "\<lparr>path_exists = True, read_csv = Raises ''Permission denied''\<rparr>" "''Permission denied''" pandas_stable]
  by simp

section \<open>The words that are counted\<close>

lemma backtrack_Some:
  "backtrack s k = Some m \<Longrightarrow> \<exists>j. 4 \<le> j \<and> j \<le> k \<and> m = take j s"
proof (induction k)
  case 0
  then show ?case by (simp add: backtrack.simps [of _ 0])
next
  case (Suc k)
  let ?b = "word_boundary (Some (s ! (Suc k - 1)))
              (if Suc k < length s then Some (s ! Suc k) else None)"
  from Suc.prems have ge: "4 \<le> Suc k"
    by (simp add: backtrack.simps [of _ "Suc k"] split: if_splits)
  show ?case
  proof (cases ?b)
    case True
    with Suc.prems ge have "m = take (Suc k) s"
      by (simp add: backtrack.simps [of _ "Suc k"] split: if_splits)
    with ge show ?thesis by blast
  next
    case False
    with Suc.prems ge have "backtrack s k = Some m"
      by (simp add: backtrack.simps [of _ "Suc k"] split: if_splits)
    from Suc.IH [OF this] show ?thesis by (auto intro: le_SucI)
  qed
qed

lemma match_at_Some:
  assumes "match_at prev s = Some m"
  shows "4 \<le> length m \<and> (\<forall>c\<in>set m. letra c)"
proof -
  from assms have "backtrack s (length (takeWhile letra s)) = Some m"
    by (simp add: match_at_def split: if_splits)
  then obtain j where j: "4 \<le> j" "j \<le> length (takeWhile letra s)" "m = take j s"
    using backtrack_Some by blast
  have le: "length (takeWhile letra s) \<le> length s" by (rule length_takeWhile_le)
  have "m = take j (takeWhile letra s)"
    using j(2,3) by (metis takeWhile_dropWhile_id take_all take_append diff_is_0_eq' append_Nil2 take_0)
  then have "set m \<subseteq> set (takeWhile letra s)" by (simp add: set_take_subset)
  then have "\<forall>c\<in>set m. letra c" by (auto dest: set_takeWhileD)
  moreover have "length m = j" using j le by simp
  ultimately show ?thesis using j by simp
qed

lemma findall_from_tokens:
  "m \<in> set (findall_from prev s) \<Longrightarrow> 4 \<le> length m \<and> (\<forall>c\<in>set m. letra c)"
proof (induction prev s rule: findall_from.induct)
  case (1 prev)
  then show ?case by simp
next
  case (2 prev c cs)
  then show ?case
    by (cases "match_at prev (c # cs)") (auto dest: match_at_Some)
qed

lemma letra_lower: "letra c \<Longrightarrow> lower_char c = c"
  by (auto simp: letra_def lower_char_def acentuadas_def)

lemma foldl_bump_keys:
  "fst ` set (foldl (\<lambda>t k. bump k t) t xs) = fst ` set t \<union> set xs"
proof (induction xs arbitrary: t)
  case Nil
  then show ?case by simp
next
  case (Cons x xs)
  have "fst ` set (bump x t) = insert x (fst ` set t)"
    using bump_keys [of x t] by (metis (no_types, lifting) insert_absorb list.set_map set_append list.simps(15) Un_insert_right sup_bot.right_neutral empty_set)
  with Cons show ?case by auto
qed

lemma tally_keys: "fst ` set (tally xs) = set xs"
  by (simp add: tally_def foldl_bump_keys)

lemma most_common_subset: "set (most_common n t) \<subseteq> set t"
  by (auto simp: most_common_def dest: in_set_takeD)


lemma contagem_tokens:
  assumes "p \<in> fst ` set (contagem df)"
  shows "4 \<le> length p \<and> (\<forall>c\<in>set p. letra c) \<and> lower p = p \<and> p \<notin> set stop_words"
proof -
  from assms have "p \<in> set (palavras_filtradas df)"
    by (simp add: contagem_def tally_keys)
  then have sw: "p \<notin> set stop_words" and "p \<in> set (findall_from None (lower (todos_textos df)))"
    by (simp_all add: palavras_filtradas_def palavras_def findall_def)
  then have l: "4 \<le> length p \<and> (\<forall>c\<in>set p. letra c)"
    using findall_from_tokens by blast
  then have "lower p = p"
    by (simp add: lower_def letra_lower map_idI)
  with l sw show ?thesis by simp
qed

lemma top_palavras_subset: "set (top_palavras df) \<subseteq> set (contagem df)"
  by (simp add: top_palavras_def most_common_subset)

text \<open>
  C5. Every word of the table of counts of \<^verbatim>\<open>analise_conteudo\<close> (the whole counter,
  its fifteen most common entries, the labels of the chart and the ten printed
  keywords) has at least four characters, all of them letters of the class of the
  pattern (\<open>a\<close> to \<open>z\<close> and the thirteen accented letters), is in lower case, and is not
  a stop word.
\<close>

theorem tokens_are_words:
  assumes "p \<in> fst ` set (contagem (frame w)) \<or> p \<in> fst ` set (top_palavras (frame w)) \<or>
           (\<exists>w' out. analise_conteudo w = (w', Inr out) \<and>
                      (p \<in> set (rotulos out) \<or> p \<in> fst ` set (palavras_chave out)))"
  shows "4 \<le> length p \<and> (\<forall>c\<in>set p. letra c) \<and> lower p = p \<and> p \<notin> set stop_words"
proof -
  have "p \<in> fst ` set (contagem (frame w))"
    using assms
  proof (elim disjE exE conjE)
    assume "p \<in> fst ` set (contagem (frame w))"
    then show ?thesis .
  next
    assume "p \<in> fst ` set (top_palavras (frame w))"
    then show ?thesis using top_palavras_subset [of "frame w"] by auto
  next
    fix w' out
    assume run: "analise_conteudo w = (w', Inr out)" and p: "p \<in> set (rotulos out)"
    from run have ne: "palavras_filtradas (frame w) \<noteq> []"
      using analise_conteudo_empty [of w] by auto
    from run have "rotulos out = map fst (top_palavras (frame w))"
      by (auto simp add: analise_conteudo_nonempty [OF ne])
    with p show ?thesis using top_palavras_subset [of "frame w"] by auto
  next
    fix w' out
    assume run: "analise_conteudo w = (w', Inr out)" and p: "p \<in> fst ` set (palavras_chave out)"
    from run have ne: "palavras_filtradas (frame w) \<noteq> []"
      using analise_conteudo_empty [of w] by auto
    from run have "palavras_chave out = take 10 (top_palavras (frame w))"
      by (auto simp add: analise_conteudo_nonempty [OF ne])
    with p show ?thesis
      using top_palavras_subset [of "frame w"] by (auto dest: in_set_takeD)
  qed
  then show ?thesis by (rule contagem_tokens)
qed

lemma contagem_povo: "contagem [povo] = [(''povo'', 1), (''direito'', 1)]"
  by (simp add: contagem_def palavras_filtradas_povo tally_def)

theorem tokens_are_words_witness:
  "''direito'' \<in> fst ` set (contagem [povo]) \<and> 4 \<le> length ''direito'' \<and>
   list_all letra ''direito'' \<and> lower ''direito'' = ''direito'' \<and> ''direito'' \<notin> set stop_words"
proof -
  have a: "''direito'' \<in> fst ` set (contagem (frame \<lparr>frame = [povo], saved = {}\<rparr>))"
    by (simp add: contagem_povo)
  from tokens_are_words [of "''direito''" "\<lparr>frame = [povo], saved = {}\<rparr>"] a
  show ?thesis by (simp add: list_all_iff)
qed

section \<open>The tables of counts\<close>

lemma fillna_map: "fillna v (map g df) = map (\<lambda>r. case g r of None \<Rightarrow> Some v | Some s \<Rightarrow> Some s) df"
  by (simp add: fillna_def)

lemma analise_demografica_eq:
  "analise_demografica pd w =
     (\<lparr>frame = map (\<lambda>r. r\<lparr>SEXO := hd (fillna nao_informado [SEXO r]),
                            FAIXA_ETARIA := hd (fillna nao_informado [FAIXA_ETARIA r]),
                            INSTRUCAO := hd (fillna nao_informado [INSTRUCAO r]),
                            ESTADO_CIVIL := hd (fillna nao_informado [ESTADO_CIVIL r])\<rparr>) (frame w),
       saved = insert ''perfil_demografico.png'' (saved w)\<rparr>,
      if frame w = [] then Inl ZeroDivisionError
      else Inr \<lparr>sexo_counts = value_counts pd (fillna nao_informado (map SEXO (frame w))),
                faixa_etaria = reindex ordem_faixa 0
                   (value_counts pd (fillna nao_informado (map FAIXA_ETARIA (frame w)))),
                instrucao = head 8 (value_counts pd (fillna nao_informado (map INSTRUCAO (frame w)))),
                estado_civil = head 6 (value_counts pd (fillna nao_informado (map ESTADO_CIVIL (frame w)))),
                homens = count_eq (fillna nao_informado (map SEXO (frame w))) ''MASCULINO'',
                mulheres = count_eq (fillna nao_informado (map SEXO (frame w))) ''FEMININO'',
                sexo_nao_informado = count_eq (fillna nao_informado (map SEXO (frame w))) nao_informado\<rparr>)"
  by (simp add: analise_demografica_def Let_def fillna_map setitem_map comp_def fillna_def)

lemma analise_geografica_eq:
  "analise_geografica pd w =
     (\<lparr>frame = map (\<lambda>r. r\<lparr>UF := hd (fillna nao_informado [UF r])\<rparr>) (frame w),
       saved = insert ''distribuicao_geografica.png'' (saved w)\<rparr>,
      Inr \<lparr>uf_distribuicao = head 10 (value_counts pd (fillna nao_informado (map UF (frame w)))),
           top5 = head 5 (head 10 (value_counts pd (fillna nao_informado (map UF (frame w)))))\<rparr>)"
  by (simp add: analise_geografica_def Let_def fillna_map setitem_map comp_def fillna_def)


lemma map_of_bump:
  "map_of (bump k t) = (map_of t)(k \<mapsto> (case map_of t k of None \<Rightarrow> 1 | Some c \<Rightarrow> Suc c))"
  by (induction t) (auto simp: fun_eq_iff)

lemma map_of_foldl_bump:
  "map_of (foldl (\<lambda>t k. bump k t) t xs) k =
     (case map_of t k of
        None \<Rightarrow> if k \<in> set xs then Some (count_list xs k) else None
      | Some c \<Rightarrow> Some (c + count_list xs k))"
proof (induction xs arbitrary: t)
  case Nil
  then show ?case by (simp split: option.splits)
next
  case (Cons x xs)
  show ?case
    by (simp add: Cons.IH map_of_bump split: option.splits)
qed

lemma distinct_bump: "distinct (map fst t) \<Longrightarrow> distinct (map fst (bump k t))"
  by (simp add: bump_keys)

lemma distinct_foldl_bump:
  "distinct (map fst t) \<Longrightarrow> distinct (map fst (foldl (\<lambda>t k. bump k t) t xs))"
  by (induction xs arbitrary: t) (simp_all add: distinct_bump)

lemma distinct_tally: "distinct (map fst (tally xs))"
  by (simp add: tally_def distinct_foldl_bump)

lemma map_of_tally:
  "map_of (tally xs) k = (if k \<in> set xs then Some (count_list xs k) else None)"
  by (simp add: tally_def map_of_foldl_bump)

lemma sum_foldl_bump:
  "sum_list (map snd (foldl (\<lambda>t k. bump k t) t xs)) = sum_list (map snd t) + length xs"
  by (induction xs arbitrary: t) (simp_all add: bump_sum)

lemma sum_tally: "sum_list (map snd (tally xs)) = length xs"
  by (simp add: tally_def sum_foldl_bump)

lemma tally_entry: "(k, c) \<in> set (tally xs) \<longleftrightarrow> k \<in> set xs \<and> c = count_list xs k"
  using map_of_eq_Some_iff [OF distinct_tally, of xs k c]
  by (auto simp: map_of_tally split: if_splits)

lemma tally_positive: "e \<in> set (tally xs) \<Longrightarrow> 0 < snd e"
  by (metis count_list_0_iff gr0I prod.collapse tally_entry)

lemma length_tally: "length (tally xs) = card (set xs)"
proof -
  have "length (tally xs) = length (map fst (tally xs))" by simp
  also have "\<dots> = card (set (map fst (tally xs)))"
    by (rule distinct_card [symmetric]) (rule distinct_tally)
  also have "set (map fst (tally xs)) = set xs" by (simp add: tally_keys)
  finally show ?thesis .
qed

lemma dropna_fillna: "dropna (fillna v col) = map (\<lambda>c. case c of None \<Rightarrow> v | Some s \<Rightarrow> s) col"
  by (induction col) (auto simp: fillna_def split: option.splits)

lemma length_dropna_fillna: "length (dropna (fillna v col)) = length col"
  by (simp add: dropna_fillna)

lemma count_list_dropna: "count_list (dropna col) v = count_list col (Some v)"
  by (induction col) (auto split: option.splits)

lemma count_eq_count_list: "count_eq col v = count_list col (Some v)"
  by (induction col) (auto simp: count_eq_def)

text \<open>What the contract of the sort gives for \<open>value_counts\<close>.\<close>

lemma value_counts_mset:
  "sorts_descending pd \<Longrightarrow> mset (value_counts pd col) = mset (tally (dropna col))"
  by (simp add: value_counts_def sorts_descending_def)

lemma value_counts_set:
  "sorts_descending pd \<Longrightarrow> set (value_counts pd col) = set (tally (dropna col))"
  by (metis value_counts_mset set_mset_mset)

lemma value_counts_sum:
  assumes "sorts_descending pd"
  shows "sum_list (map snd (value_counts pd col)) = length (dropna col)"
proof -
  have "mset (map snd (value_counts pd col)) = mset (map snd (tally (dropna col)))"
    using value_counts_mset [OF assms, of col] by (metis mset_map)
  then have "sum_list (map snd (value_counts pd col)) = sum_list (map snd (tally (dropna col)))"
    by (metis sum_mset_sum_list)
  then show ?thesis by (simp add: sum_tally)
qed

lemma value_counts_distinct:
  assumes "sorts_descending pd"
  shows "distinct (map fst (value_counts pd col))"
proof -
  have "mset (map fst (value_counts pd col)) = mset (map fst (tally (dropna col)))"
    using value_counts_mset [OF assms, of col] by (metis mset_map)
  then show ?thesis using distinct_tally [of "dropna col"] by (metis mset_eq_imp_distinct_iff)
qed

lemma value_counts_length:
  assumes "sorts_descending pd"
  shows "length (value_counts pd col) = card (set (dropna col))"
  using value_counts_mset [OF assms, of col] length_tally [of "dropna col"]
  by (metis size_mset)

lemma value_counts_entry:
  assumes "sorts_descending pd"
  shows "(k, c) \<in> set (value_counts pd col) \<longleftrightarrow> Some k \<in> set col \<and> c = count_eq col k"
proof -
  have "Some k \<in> set col \<longleftrightarrow> k \<in> set (dropna col)"
    by (induction col) (auto split: option.splits)
  then show ?thesis
    by (simp add: value_counts_set [OF assms] tally_entry count_list_dropna count_eq_count_list)
qed


lemma map_of_value_counts:
  assumes "sorts_descending pd"
  shows "map_of (value_counts pd col) k = (if Some k \<in> set col then Some (count_eq col k) else None)"
proof (cases "Some k \<in> set col")
  case True
  then have "(k, count_eq col k) \<in> set (value_counts pd col)"
    by (simp add: value_counts_entry [OF assms])
  then show ?thesis
    using True value_counts_distinct [OF assms, of col] by simp
next
  case False
  then have "k \<notin> fst ` set (value_counts pd col)"
    using value_counts_entry [OF assms, of _ _ col] by force
  then show ?thesis using False by (simp add: map_of_eq_None_iff)
qed

lemma sum_take_positive:
  fixes t :: "('a \<times> nat) list"
  assumes "\<forall>e\<in>set t. 0 < snd e"
  shows "sum_list (map snd (take n t)) \<le> sum_list (map snd t) \<and>
         (sum_list (map snd (take n t)) = sum_list (map snd t) \<longleftrightarrow> length t \<le> n)"
proof -
  have split: "sum_list (map snd t) = sum_list (map snd (take n t)) + sum_list (map snd (drop n t))"
    by (metis append_take_drop_id map_append sum_list_append)
  have "sum_list (map snd (drop n t)) = 0 \<longleftrightarrow> drop n t = []"
  proof
    assume z: "sum_list (map snd (drop n t)) = 0"
    show "drop n t = []"
    proof (rule ccontr)
      assume "drop n t \<noteq> []"
      then obtain e es where e: "drop n t = e # es" by (cases "drop n t") auto
      then have "e \<in> set t" by (metis in_set_dropD list.set_intros(1))
      with assms have "0 < snd e" by blast
      with z e show False by simp
    qed
  qed simp
  with split show ?thesis by auto
qed

section \<open>The instance meets the contracts of the library\<close>

lemma sorts_descending_stable: "sorts_descending pandas_stable"
proof -
  have "sorted_wrt (\<lambda>a b. snd b \<le> snd a) (sort_key (\<lambda>e. - int (snd e)) t)" for t :: freq
    using sorted_sort_key [of "\<lambda>e. - int (snd e)" t] by (simp add: sorted_map)
  then show ?thesis by (simp add: sorts_descending_def pandas_stable_def)
qed

section \<open>The demographic tables\<close>

lemma sum_count_list_distinct:
  "distinct ls \<Longrightarrow> sum_list (map (count_list xs) ls) = length (filter (\<lambda>x. x \<in> set ls) xs)"
proof (induction xs)
  case Nil
  then show ?case by (induction ls) auto
next
  case (Cons x xs)
  have "sum_list (map (count_list (x # xs)) ls) =
          sum_list (map (count_list xs) ls) + (if x \<in> set ls then 1 else 0)"
    using Cons.prems by (induction ls) auto
  with Cons.IH [OF Cons.prems] show ?case by (simp del: count_list.simps)
qed

lemma distinct_ordem_faixa: "distinct ordem_faixa"
  by (simp add: ordem_faixa_def nao_informado_def)

lemma reindex_value_counts:
  assumes "sorts_descending pd"
  shows "reindex ls 0 (value_counts pd col) = map (\<lambda>l. (l, count_eq col l)) ls"
proof -
  have "(case map_of (value_counts pd col) l of None \<Rightarrow> 0 | Some c \<Rightarrow> c) = count_eq col l" for l
    by (simp add: map_of_value_counts [OF assms] count_eq_count_list count_list_0_iff)
  then show ?thesis by (simp add: reindex_def)
qed

text \<open>
  C4. Whenever \<^verbatim>\<open>analise_demografica\<close> returns, its table of age brackets has the eight
  labels of \<^verbatim>\<open>ordem_faixa\<close>, each once and in that order: the seven brackets and then
  \<^const>\<open>nao_informado\<close>. With a library whose sort rearranges the counts, the value at a
  label is the number of rows with that bracket after the missing ones were filled,
  which is 0 for a bracket no row has.
\<close>

theorem faixa_etaria_canonical:
  assumes "analise_demografica pd w = (w', Inr out)"
  shows "map fst (faixa_etaria out) = ordem_faixa \<and> length (faixa_etaria out) = 8 \<and>
         distinct (map fst (faixa_etaria out)) \<and>
         (sorts_descending pd \<longrightarrow>
            faixa_etaria out =
              map (\<lambda>l. (l, count_eq (fillna nao_informado (map FAIXA_ETARIA (frame w))) l))
                ordem_faixa \<and>
            (\<forall>l\<in>set ordem_faixa.
               Some l \<notin> set (fillna nao_informado (map FAIXA_ETARIA (frame w))) \<longrightarrow>
               (l, 0) \<in> set (faixa_etaria out)))"
proof -
  from assms have f: "faixa_etaria out = reindex ordem_faixa 0
      (value_counts pd (fillna nao_informado (map FAIXA_ETARIA (frame w))))"
    by (auto simp: analise_demografica_eq split: if_splits)
  then have keys: "map fst (faixa_etaria out) = ordem_faixa"
    by (simp add: reindex_def comp_def)
  have len: "length ordem_faixa = 8" by (simp add: ordem_faixa_def)
  have "length (faixa_etaria out) = 8" using keys len by (metis length_map)
  moreover have "distinct (map fst (faixa_etaria out))"
    using keys distinct_ordem_faixa by simp
  moreover have "sorts_descending pd \<longrightarrow>
            faixa_etaria out =
              map (\<lambda>l. (l, count_eq (fillna nao_informado (map FAIXA_ETARIA (frame w))) l))
                ordem_faixa \<and>
            (\<forall>l\<in>set ordem_faixa.
               Some l \<notin> set (fillna nao_informado (map FAIXA_ETARIA (frame w))) \<longrightarrow>
               (l, 0) \<in> set (faixa_etaria out))"
  proof (intro impI conjI ballI)
    assume sd: "sorts_descending pd"
    show eq: "faixa_etaria out =
              map (\<lambda>l. (l, count_eq (fillna nao_informado (map FAIXA_ETARIA (frame w))) l))
                ordem_faixa"
      by (simp add: f reindex_value_counts [OF sd])
    fix l
    assume l: "l \<in> set ordem_faixa"
      and "Some l \<notin> set (fillna nao_informado (map FAIXA_ETARIA (frame w)))"
    then have "count_eq (fillna nao_informado (map FAIXA_ETARIA (frame w))) l = 0"
      by (simp add: count_eq_count_list count_list_0_iff)
    with l show "(l, 0) \<in> set (faixa_etaria out)"
      unfolding eq by force
  qed
  ultimately show ?thesis using keys by blast
qed


theorem faixa_etaria_canonical_witness:
  "sorts_descending pandas_stable \<and>
   (case snd (analise_demografica pandas_stable \<lparr>frame = jovens, saved = {}\<rparr>) of
      Inl e \<Rightarrow> False
    | Inr out \<Rightarrow>
        faixa_etaria out =
          [(''15 A 19 ANOS'', 0), (''20 A 24 ANOS'', 1), (''25 A 29 ANOS'', 0),
           (''30 A 39 ANOS'', 0), (''40 A 49 ANOS'', 0), (''50 A 59 ANOS'', 0),
           (''ACIMA DE 59 ANOS'', 0), (nao_informado, 1)])"
proof -
  obtain w' out where
    run: "analise_demografica pandas_stable \<lparr>frame = jovens, saved = {}\<rparr> = (w', Inr out)"
    by (simp add: analise_demografica_eq jovens_def)
  from faixa_etaria_canonical [OF run] sorts_descending_stable
  have "faixa_etaria out =
          map (\<lambda>l. (l, count_eq (fillna nao_informado
                 (map FAIXA_ETARIA (frame \<lparr>frame = jovens, saved = {}\<rparr>))) l)) ordem_faixa"
    by blast
  then have "faixa_etaria out =
          [(''15 A 19 ANOS'', 0), (''20 A 24 ANOS'', 1), (''25 A 29 ANOS'', 0),
           (''30 A 39 ANOS'', 0), (''40 A 49 ANOS'', 0), (''50 A 59 ANOS'', 0),
           (''ACIMA DE 59 ANOS'', 0), (nao_informado, 1)]"
    by (simp add: ordem_faixa_def count_eq_def fillna_def jovens_def vazia_def nao_informado_def)
  with run show ?thesis by (simp add: sorts_descending_stable)
qed

lemma card_set_fillna: "card (set (dropna (fillna v col))) = card (set (fillna v col))"
proof -
  have "set (fillna v col) = Some ` set (dropna (fillna v col))"
    by (induction col) (auto simp: fillna_def split: option.splits)
  then show ?thesis by (simp add: card_image)
qed

lemma head_value_counts_sum:
  assumes "sorts_descending pd"
  shows "sum_list (map snd (head n (value_counts pd (fillna v col)))) \<le> length col \<and>
         (sum_list (map snd (head n (value_counts pd (fillna v col)))) = length col
            \<longleftrightarrow> card (set (fillna v col)) \<le> n)"
proof -
  let ?t = "value_counts pd (fillna v col)"
  have pos: "\<forall>e\<in>set ?t. 0 < snd e"
    by (simp add: value_counts_set [OF assms] tally_positive)
  have total: "sum_list (map snd ?t) = length col"
    by (simp add: value_counts_sum [OF assms] length_dropna_fillna)
  have len: "length ?t = card (set (fillna v col))"
    by (simp add: value_counts_length [OF assms] card_set_fillna)
  from sum_take_positive [OF pos, of n] total len show ?thesis
    by (simp add: head_def)
qed

text \<open>
  C1, as the code has it. With a library whose sort rearranges the counts, whenever
  \<^verbatim>\<open>analise_demografica\<close> returns (the table has a row): the counts of the table of
  sexes add up to the number of rows; the counts of the table of age brackets add up
  to the number of rows whose bracket, once filled, is one of the eight labels of
  \<^verbatim>\<open>ordem_faixa\<close> (all the rows when no other bracket occurs); the tables of education
  and of marital status are cut to their 8 and 6 first entries, so their counts add up
  to at most the number of rows, and to exactly that number if and only if the column
  has no more than 8, respectively 6, different values.
\<close>

theorem demographic_sums:
  assumes "sorts_descending pd" and "analise_demografica pd w = (w', Inr out)"
  shows "sum_list (map snd (sexo_counts out)) = length (frame w) \<and>
         sum_list (map snd (faixa_etaria out)) =
           length (filter (\<lambda>c. c \<in> Some ` set ordem_faixa)
                     (fillna nao_informado (map FAIXA_ETARIA (frame w)))) \<and>
         (set (fillna nao_informado (map FAIXA_ETARIA (frame w))) \<subseteq> Some ` set ordem_faixa
            \<longrightarrow> sum_list (map snd (faixa_etaria out)) = length (frame w)) \<and>
         sum_list (map snd (instrucao out)) \<le> length (frame w) \<and>
         (sum_list (map snd (instrucao out)) = length (frame w)
            \<longleftrightarrow> card (set (fillna nao_informado (map INSTRUCAO (frame w)))) \<le> 8) \<and>
         sum_list (map snd (estado_civil out)) \<le> length (frame w) \<and>
         (sum_list (map snd (estado_civil out)) = length (frame w)
            \<longleftrightarrow> card (set (fillna nao_informado (map ESTADO_CIVIL (frame w)))) \<le> 6)"
proof -
  let ?fx = "fillna nao_informado (map FAIXA_ETARIA (frame w))"
  from assms(2) have
    sx: "sexo_counts out = value_counts pd (fillna nao_informado (map SEXO (frame w)))" and
    fx: "faixa_etaria out = reindex ordem_faixa 0 (value_counts pd ?fx)" and
    ins: "instrucao out = head 8 (value_counts pd (fillna nao_informado (map INSTRUCAO (frame w))))" and
    ec: "estado_civil out = head 6 (value_counts pd (fillna nao_informado (map ESTADO_CIVIL (frame w))))"
    by (auto simp: analise_demografica_eq split: if_splits)
  have s1: "sum_list (map snd (sexo_counts out)) = length (frame w)"
    by (simp add: sx value_counts_sum [OF assms(1)] length_dropna_fillna)
  have "map snd (faixa_etaria out) = map (count_list ?fx) (map Some ordem_faixa)"
    by (simp add: fx reindex_value_counts [OF assms(1)] comp_def count_eq_count_list)
  moreover have "distinct (map Some ordem_faixa)"
    using distinct_ordem_faixa by (simp add: distinct_map)
  ultimately have s2: "sum_list (map snd (faixa_etaria out)) =
      length (filter (\<lambda>c. c \<in> Some ` set ordem_faixa) ?fx)"
    using sum_count_list_distinct [of "map Some ordem_faixa" ?fx] by simp
  have s3: "set ?fx \<subseteq> Some ` set ordem_faixa \<longrightarrow>
      sum_list (map snd (faixa_etaria out)) = length (frame w)"
  proof
    assume "set ?fx \<subseteq> Some ` set ordem_faixa"
    then have "filter (\<lambda>c. c \<in> Some ` set ordem_faixa) ?fx = ?fx"
      by (auto intro: filter_True)
    with s2 have "sum_list (map snd (faixa_etaria out)) = length ?fx" by simp
    then show "sum_list (map snd (faixa_etaria out)) = length (frame w)"
      by (simp add: fillna_def)
  qed
  have s4: "sum_list (map snd (instrucao out)) \<le> length (frame w) \<and>
     (sum_list (map snd (instrucao out)) = length (frame w)
        \<longleftrightarrow> card (set (fillna nao_informado (map INSTRUCAO (frame w)))) \<le> 8)"
    using head_value_counts_sum [OF assms(1), of 8 nao_informado "map INSTRUCAO (frame w)"]
    by (simp add: ins)
  have s5: "sum_list (map snd (estado_civil out)) \<le> length (frame w) \<and>
     (sum_list (map snd (estado_civil out)) = length (frame w)
        \<longleftrightarrow> card (set (fillna nao_informado (map ESTADO_CIVIL (frame w)))) \<le> 6)"
    using head_value_counts_sum [OF assms(1), of 6 nao_informado "map ESTADO_CIVIL (frame w)"]
    by (simp add: ec)
  from s1 s2 s3 s4 s5 show ?thesis by blast
qed


lemma civis_run:
  "snd (analise_demografica pandas_stable \<lparr>frame = civis, saved = {}\<rparr>) =
     Inr \<lparr>sexo_counts = [(nao_informado, 7)],
          faixa_etaria = [(''15 A 19 ANOS'', 0), (''20 A 24 ANOS'', 0), (''25 A 29 ANOS'', 0),
             (''30 A 39 ANOS'', 0), (''40 A 49 ANOS'', 0), (''50 A 59 ANOS'', 0),
             (''ACIMA DE 59 ANOS'', 0), (nao_informado, 7)],
          instrucao = [(nao_informado, 7)],
          estado_civil = [(''SOLTEIRO'', 1), (''CASADO'', 1), (''VIUVO'', 1), (''DIVORCIADO'', 1),
             (''DESQUITADO'', 1), (''SEPARADO'', 1)],
          homens = 0, mulheres = 0, sexo_nao_informado = 7\<rparr>"
  by (simp add: analise_demografica_eq civis_def vazia_def value_counts_def pandas_stable_def
      fillna_def tally_def head_def reindex_def ordem_faixa_def count_eq_def nao_informado_def)

theorem demographic_sums_counterexample:
  "length civis = 7 \<and>
   (case snd (analise_demografica pandas_stable \<lparr>frame = civis, saved = {}\<rparr>) of
      Inl e \<Rightarrow> False
    | Inr out \<Rightarrow>
        estado_civil out =
          [(''SOLTEIRO'', 1), (''CASADO'', 1), (''VIUVO'', 1), (''DIVORCIADO'', 1),
           (''DESQUITADO'', 1), (''SEPARADO'', 1)] \<and>
        sum_list (map snd (estado_civil out)) \<noteq> length civis)"
  by (simp add: civis_run) (simp add: civis_def)

theorem demographic_sums_witness:
  "sorts_descending pandas_stable \<and>
   (case snd (analise_demografica pandas_stable \<lparr>frame = civis, saved = {}\<rparr>) of
      Inl e \<Rightarrow> False
    | Inr out \<Rightarrow>
        sum_list (map snd (sexo_counts out)) = 7 \<and> sum_list (map snd (faixa_etaria out)) = 7 \<and>
        sum_list (map snd (instrucao out)) = 7 \<and> sum_list (map snd (estado_civil out)) \<le> 7)"
proof -
  obtain w' out where
    run: "analise_demografica pandas_stable \<lparr>frame = civis, saved = {}\<rparr> = (w', Inr out)"
    by (simp add: analise_demografica_eq civis_def)
  have len: "length (frame \<lparr>frame = civis, saved = {}\<rparr>) = 7" by (simp add: civis_def)
  have fx: "set (fillna nao_informado (map FAIXA_ETARIA (frame \<lparr>frame = civis, saved = {}\<rparr>)))
              \<subseteq> Some ` set ordem_faixa"
    by (simp add: civis_def vazia_def fillna_def ordem_faixa_def)
  have ins: "card (set (fillna nao_informado (map INSTRUCAO (frame \<lparr>frame = civis, saved = {}\<rparr>)))) \<le> 8"
    by (simp add: civis_def vazia_def fillna_def)
  from demographic_sums [OF sorts_descending_stable run] len fx ins
  have "sum_list (map snd (sexo_counts out)) = 7 \<and> sum_list (map snd (faixa_etaria out)) = 7 \<and>
        sum_list (map snd (instrucao out)) = 7 \<and> sum_list (map snd (estado_civil out)) \<le> 7"
    by simp
  with run show ?thesis by (simp add: sorts_descending_stable)
qed

section \<open>The ten states\<close>





section \<open>The months\<close>

lemma map_DATA_setitem:
  "map DATA (setitem (\<lambda>r v. r\<lparr>DATA := v\<rparr>) na df col) =
     map (\<lambda>i. if i < length col then col ! i else na) [0..<length df]"
  by (rule nth_equalityI) (simp_all add: setitem_def nth_enumerate_eq)

lemma aligned_cells:
  "map (\<lambda>i. if i < length (map cell_of td) then map cell_of td ! i else NaN) [0..<n] =
     map cell_of (map (\<lambda>i. if i < length td then td ! i else None) [0..<n])"
  by (simp add: cell_of_def)

lemma dt_to_period_cells:
  "dt_to_period (map cell_of ds) = Inr (map (map_option to_period_M) ds)"
proof -
  have "\<not> list_ex is_raw (map cell_of ds)"
    by (auto simp: list_ex_iff is_raw_def cell_of_def split: option.splits)
  moreover have "(case cell_of d of Timestamp t \<Rightarrow> Some (to_period_M t) | _ \<Rightarrow> None) =
      map_option to_period_M d" for d
    by (cases d) (simp_all add: cell_of_def)
  ultimately show ?thesis by (simp add: dt_to_period_def)
qed

lemma set_dropna: "set (dropna col) = {x. Some x \<in> set col}"
  by (induction col) (auto split: option.splits)

lemma groupby_size_keys: "map fst (groupby_size keys) = sort (remdups (dropna keys))"
  by (simp add: groupby_size_def Let_def comp_def)

lemma groupby_size_strict: "sorted_wrt (<) (map fst (groupby_size keys))"
  by (simp add: groupby_size_keys strict_sorted_iff)

lemma groupby_size_entry:
  "(p, n) \<in> set (groupby_size keys) \<longleftrightarrow> Some p \<in> set keys \<and> n = count_list keys (Some p)"
  by (auto simp: groupby_size_def Let_def set_dropna count_list_dropna)

lemma groupby_size_sum: "sum_list (map snd (groupby_size keys)) = length (dropna keys)"
proof -
  have "map snd (groupby_size keys) = map (count_list (dropna keys)) (sort (remdups (dropna keys)))"
    by (simp add: groupby_size_def Let_def comp_def)
  then have "sum_list (map snd (groupby_size keys)) =
      length (filter (\<lambda>x. x \<in> set (sort (remdups (dropna keys)))) (dropna keys))"
    by (simp add: sum_count_list_distinct)
  then show ?thesis by simp
qed

lemma groupby_size_Nil: "groupby_size keys = [] \<longleftrightarrow> dropna keys = []"
  by (metis groupby_size_keys map_is_Nil_conv remdups_eq_nil_iff set_empty set_sort)

lemma first_max_split:
  "\<exists>pre post. b # xs = pre @ first_max b xs # post \<and>
     (\<forall>x\<in>set pre. snd x < snd (first_max b xs)) \<and>
     (\<forall>x\<in>set post. snd x \<le> snd (first_max b xs))"
proof (induction xs arbitrary: b)
  case Nil
  have "[b] = [] @ first_max b [] # [] \<and>
     (\<forall>x\<in>set []. snd x < snd (first_max b [])) \<and>
     (\<forall>x\<in>set []. snd x \<le> snd (first_max b []))"
    by simp
  then show ?case by blast
next
  case (Cons x xs)
  show ?case
  proof (cases "snd b < snd x")
    case True
    then have fm: "first_max b (x # xs) = first_max x xs" by simp
    from Cons [of x] obtain pre post where
      s: "x # xs = pre @ first_max x xs # post" and
      l: "\<forall>y\<in>set pre. snd y < snd (first_max x xs)" and
      r: "\<forall>y\<in>set post. snd y \<le> snd (first_max x xs)"
      by blast
    have "x \<in> set pre \<or> x = first_max x xs"
      using s by (cases pre) auto
    with l have "snd x \<le> snd (first_max x xs)" by (auto simp: less_imp_le)
    with True have bl: "snd b < snd (first_max x xs)" by simp
    have "b # x # xs = (b # pre) @ first_max b (x # xs) # post"
      unfolding fm using s by simp
    moreover have "\<forall>y\<in>set (b # pre). snd y < snd (first_max b (x # xs))"
      unfolding fm using l bl by simp
    moreover have "\<forall>y\<in>set post. snd y \<le> snd (first_max b (x # xs))"
      unfolding fm using r by simp
    ultimately show ?thesis by blast
  next
    case False
    then have fm: "first_max b (x # xs) = first_max b xs" by simp
    from Cons [of b] obtain pre post where
      s: "b # xs = pre @ first_max b xs # post" and
      l: "\<forall>y\<in>set pre. snd y < snd (first_max b xs)" and
      r: "\<forall>y\<in>set post. snd y \<le> snd (first_max b xs)"
      by blast
    show ?thesis
    proof (cases pre)
      case Nil
      from s [unfolded Nil append_Nil] have inj: "b = first_max b xs \<and> xs = post"
        by (rule list.inject [THEN iffD1])
      from inj have e1: "first_max b xs = b" by (rule conjunct1 [THEN sym])
      from inj have e2: "post = xs" by (rule conjunct2 [THEN sym])
      note e = e1 e2
      have "b # x # xs = [] @ first_max b (x # xs) # (x # xs)"
        unfolding fm e by simp
      moreover have "\<forall>y\<in>set (x # xs). snd y \<le> snd (first_max b (x # xs))"
        unfolding fm using r False e by auto
      ultimately have
        "b # x # xs = [] @ first_max b (x # xs) # (x # xs) \<and>
         (\<forall>y\<in>set []. snd y < snd (first_max b (x # xs))) \<and>
         (\<forall>y\<in>set (x # xs). snd y \<le> snd (first_max b (x # xs)))"
        by simp
      then show ?thesis by blast
    next
      case (Cons a pre')
      from s [unfolded Cons append_Cons]
      have inj: "b = a \<and> xs = pre' @ first_max b xs # post"
        by (rule list.inject [THEN iffD1])
      from inj have a: "a = b" by (rule conjunct1 [THEN sym])
      from inj have xs: "xs = pre' @ first_max b xs # post" by (rule conjunct2)
      from l Cons a have bl: "snd b < snd (first_max b xs)" by simp
      with False have xl: "snd x < snd (first_max b xs)" by simp
      have "b # x # xs = (b # x # pre') @ first_max b (x # xs) # post"
        unfolding fm using xs by simp
      moreover have "\<forall>y\<in>set (b # x # pre'). snd y < snd (first_max b (x # xs))"
        unfolding fm using l Cons bl xl by simp
      moreover have "\<forall>y\<in>set post. snd y \<le> snd (first_max b (x # xs))"
        unfolding fm using r by simp
      ultimately show ?thesis by blast
    qed
  qed
qed

lemma first_max_in: "first_max b xs \<in> set (b # xs)"
  using first_max_split [of b xs] by (metis in_set_conv_decomp)

lemma first_max_greatest: "e \<in> set (b # xs) \<Longrightarrow> snd e \<le> snd (first_max b xs)"
proof -
  assume e: "e \<in> set (b # xs)"
  obtain pre post where
    s: "b # xs = pre @ first_max b xs # post" and
    l: "\<forall>x\<in>set pre. snd x < snd (first_max b xs)" and
    r: "\<forall>x\<in>set post. snd x \<le> snd (first_max b xs)"
    using first_max_split [of b xs] by blast
  from e s have "e \<in> set pre \<or> e = first_max b xs \<or> e \<in> set post" by auto
  with l r show ?thesis by (auto simp: less_imp_le)
qed

lemma series_max_first_max: "series_max (b # xs) = snd (first_max b xs)"
proof (rule antisym)
  have "\<exists>e\<in>set s. series_max s = snd e" if "s \<noteq> []" for s :: "('k \<times> nat) list"
    using that
  proof (induction s)
    case Nil
    then show ?case by simp
  next
    case (Cons a s)
    show ?case
    proof (cases "s = []")
      case True
      then show ?thesis by simp
    next
      case False
      with Cons.IH obtain e where "e \<in> set s" "series_max s = snd e" by blast
      then show ?thesis by (cases "snd a \<le> series_max s") (auto simp: max_def)
    qed
  qed
  then obtain e where "e \<in> set (b # xs)" "series_max (b # xs) = snd e" by blast
  then show "series_max (b # xs) \<le> snd (first_max b xs)"
    using first_max_greatest by metis
next
  have "snd e \<le> series_max s" if "e \<in> set s" for e and s :: "('k \<times> nat) list"
    using that by (induction s) auto
  then show "snd (first_max b xs) \<le> series_max (b # xs)"
    using first_max_in by blast
qed

lemma list_index_found:
  "x \<in> set ys \<Longrightarrow> \<exists>i. list_index ys x = Inr i \<and> i < length ys \<and> ys ! i = x"
  by (induction ys) auto

section \<open>The series of months\<close>

lemma analise_temporal_frame:
  "frame (fst (analise_temporal pd w)) =
     setitem (\<lambda>r v. r\<lparr>DATA := v\<rparr>) NaN (frame w)
       (map cell_of (to_datetime pd (map DATA (frame w))))"
  by (simp add: analise_temporal_def Let_def split: sum.splits)

lemma analise_temporal_DATA:
  "map DATA (frame (fst (analise_temporal pd w))) =
     map cell_of (map (\<lambda>i. if i < length (to_datetime pd (map DATA (frame w)))
                              then to_datetime pd (map DATA (frame w)) ! i else None)
                    [0..<length (frame w)])"
  by (simp only: analise_temporal_frame map_DATA_setitem aligned_cells)

lemma analise_temporal_snd:
  fixes pd w
  defines "ds \<equiv> map (\<lambda>i. if i < length (to_datetime pd (map DATA (frame w)))
                            then to_datetime pd (map DATA (frame w)) ! i else None)
                  [0..<length (frame w)]"
  defines "por_mes \<equiv> groupby_size (map (map_option to_period_M) ds)"
  shows "snd (analise_temporal pd w) =
           (case por_mes of
              [] \<Rightarrow> Inl ValueError
            | x # xs \<Rightarrow>
                (case list_index (map fst por_mes) (fst (first_max x xs)) of
                   Inl e \<Rightarrow> Inl e
                 | Inr i \<Rightarrow> Inr \<lparr>sugestoes_por_mes = por_mes, mes_pico = fst (first_max x xs),
                                  valor_pico = series_max por_mes, pico_index = i\<rparr>))"
proof -
  have d: "map DATA (setitem (\<lambda>r v. r\<lparr>DATA := v\<rparr>) NaN (frame w)
             (map cell_of (to_datetime pd (map DATA (frame w))))) = map cell_of ds"
    unfolding ds_def by (simp only: map_DATA_setitem aligned_cells)
  show ?thesis
    unfolding analise_temporal_def Let_def d dt_to_period_cells por_mes_def
    by (cases "groupby_size (map (map_option to_period_M) ds)")
       (simp_all del: list_index.simps split: sum.splits)
qed


lemma count_month:
  "count_list (map (map_option to_period_M) ds) (Some p) =
     length (filter (\<lambda>c. case c of Timestamp t \<Rightarrow> to_period_M t = p | _ \<Rightarrow> False)
               (map cell_of ds))"
proof (induction ds)
  case Nil
  then show ?case by simp
next
  case (Cons d ds)
  then show ?case by (cases d) (simp_all add: cell_of_def)
qed

lemma dropna_periods_Nil:
  "dropna (map (map_option to_period_M) ds) = [] \<longleftrightarrow> (\<forall>c\<in>set (map cell_of ds). c = NaN)"
  by (induction ds) (auto simp: cell_of_def split: option.splits)

text \<open>
  C3, as the code has it. When at least one date of the table is parsed,
  \<^verbatim>\<open>analise_temporal\<close> returns, and its series has one entry for each month in which a
  row has a parsed date, and for no other month: the months are in strictly
  increasing chronological order, the count of a month is the number of rows dated in
  it and is never 0, and a month without rows between two months with rows is not in
  the series. The peak is an entry of the series (at the position \<^verbatim>\<open>pico_index\<close>), its
  count is the greatest of the series, and it is the first month with that count.
\<close>

theorem meses_com_registros:
  assumes "\<exists>r\<in>set (frame (fst (analise_temporal pd w))). DATA r \<noteq> NaN"
  shows "\<exists>out. snd (analise_temporal pd w) = Inr out \<and>
           sorted_wrt (<) (map fst (sugestoes_por_mes out)) \<and>
           (\<forall>e\<in>set (sugestoes_por_mes out).
              0 < snd e \<and>
              snd e = length (filter (\<lambda>r. case DATA r of Timestamp t \<Rightarrow> to_period_M t = fst e
                                             | _ \<Rightarrow> False)
                                (frame (fst (analise_temporal pd w))))) \<and>
           (\<forall>r\<in>set (frame (fst (analise_temporal pd w))).
              \<forall>t. DATA r = Timestamp t \<longrightarrow> to_period_M t \<in> fst ` set (sugestoes_por_mes out)) \<and>
           (mes_pico out, valor_pico out) \<in> set (sugestoes_por_mes out) \<and>
           pico_index out < length (sugestoes_por_mes out) \<and>
           sugestoes_por_mes out ! pico_index out = (mes_pico out, valor_pico out) \<and>
           (\<forall>e\<in>set (sugestoes_por_mes out).
              snd e \<le> valor_pico out \<and> (snd e = valor_pico out \<longrightarrow> mes_pico out \<le> fst e))"
proof -
  define ds where "ds = map (\<lambda>i. if i < length (to_datetime pd (map DATA (frame w)))
                            then to_datetime pd (map DATA (frame w)) ! i else None)
                  [0..<length (frame w)]"
  define keys where "keys = map (map_option to_period_M) ds"
  define por_mes where "por_mes = groupby_size keys"
  let ?df = "frame (fst (analise_temporal pd w))"
  have cells: "map DATA ?df = map cell_of ds"
    unfolding ds_def by (rule analise_temporal_DATA)
  from assms have "\<exists>c\<in>set (map DATA ?df). c \<noteq> NaN" by auto
  then have "dropna keys \<noteq> []"
    unfolding keys_def cells by (simp add: dropna_periods_Nil)
  then have "por_mes \<noteq> []" by (simp add: por_mes_def groupby_size_Nil)
  then obtain x xs where xxs: "por_mes = x # xs" by (cases por_mes) auto
  let ?pico = "first_max x xs"
  have pico_in: "?pico \<in> set por_mes" unfolding xxs by (rule first_max_in)
  then have "fst ?pico \<in> set (map fst por_mes)" by simp
  then obtain i where i: "list_index (map fst por_mes) (fst ?pico) = Inr i"
    "i < length (map fst por_mes)" "map fst por_mes ! i = fst ?pico"
    using list_index_found by metis
  define out where "out = \<lparr>sugestoes_por_mes = por_mes, mes_pico = fst ?pico,
                             valor_pico = series_max por_mes, pico_index = i\<rparr>"
  have run: "snd (analise_temporal pd w) = Inr out"
    using analise_temporal_snd [of pd w] xxs i(1)
    by (simp add: ds_def [symmetric] keys_def [symmetric] por_mes_def [symmetric] out_def)
  have vp: "series_max por_mes = snd ?pico" unfolding xxs by (rule series_max_first_max)
  have strict: "sorted_wrt (<) (map fst por_mes)"
    unfolding por_mes_def by (rule groupby_size_strict)
  then have dist: "distinct (map fst por_mes)" by (simp add: strict_sorted_iff)
  have entry: "(p, n) \<in> set por_mes \<longleftrightarrow> Some p \<in> set keys \<and> n = count_list keys (Some p)" for p n
    unfolding por_mes_def by (rule groupby_size_entry)
  have count: "count_list keys (Some p) =
      length (filter (\<lambda>r. case DATA r of Timestamp t \<Rightarrow> to_period_M t = p | _ \<Rightarrow> False) ?df)" for p
  proof -
    have "count_list keys (Some p) =
        length (filter (\<lambda>c. case c of Timestamp t \<Rightarrow> to_period_M t = p | _ \<Rightarrow> False) (map DATA ?df))"
      unfolding keys_def cells by (rule count_month)
    then show ?thesis by (simp add: filter_map comp_def)
  qed
  have c2: "\<forall>e\<in>set por_mes.
              0 < snd e \<and>
              snd e = length (filter (\<lambda>r. case DATA r of Timestamp t \<Rightarrow> to_period_M t = fst e
                                             | _ \<Rightarrow> False) ?df)"
  proof
    fix e assume "e \<in> set por_mes"
    then have e: "Some (fst e) \<in> set keys" "snd e = count_list keys (Some (fst e))"
      using entry [of "fst e" "snd e"] by simp_all
    from e(1) have "0 < count_list keys (Some (fst e))"
      by (metis count_list_0_iff gr0I)
    with e(2) count [of "fst e"] show "0 < snd e \<and>
              snd e = length (filter (\<lambda>r. case DATA r of Timestamp t \<Rightarrow> to_period_M t = fst e
                                             | _ \<Rightarrow> False) ?df)"
      by simp
  qed
  have c3: "\<forall>r\<in>set ?df. \<forall>t. DATA r = Timestamp t \<longrightarrow> to_period_M t \<in> fst ` set por_mes"
  proof (intro ballI allI impI)
    fix r t assume r: "r \<in> set ?df" and t: "DATA r = Timestamp t"
    then have "Timestamp t \<in> set (map cell_of ds)"
      using cells by (metis image_eqI list.set_map)
    then obtain d where d: "d \<in> set ds" "cell_of d = Timestamp t" by auto
    from d(2) have "d = Some t" by (cases d) (simp_all add: cell_of_def)
    with d(1) have "Some t \<in> set ds" by simp
    then have "Some (to_period_M t) \<in> set keys" unfolding keys_def by force
    then have "(to_period_M t, count_list keys (Some (to_period_M t))) \<in> set por_mes"
      by (simp add: entry)
    then show "to_period_M t \<in> fst ` set por_mes" by force
  qed
  have c4: "(fst ?pico, series_max por_mes) \<in> set por_mes"
    using pico_in vp by simp
  have c5: "i < length por_mes" using i(2) by simp
  have c6: "por_mes ! i = (fst ?pico, series_max por_mes)"
  proof -
    have "fst (por_mes ! i) = fst ?pico" using i(2,3) by simp
    moreover have "por_mes ! i \<in> set por_mes" using c5 by simp
    ultimately have "por_mes ! i = ?pico"
      using pico_in dist by (metis eq_key_imp_eq_value prod.collapse)
    then show ?thesis by (simp add: vp)
  qed
  have c7: "\<forall>e\<in>set por_mes. snd e \<le> series_max por_mes \<and>
              (snd e = series_max por_mes \<longrightarrow> fst ?pico \<le> fst e)"
  proof
    fix e assume e: "e \<in> set por_mes"
    obtain pre post where
      sp: "x # xs = pre @ ?pico # post" and
      l: "\<forall>y\<in>set pre. snd y < snd ?pico" and
      r: "\<forall>y\<in>set post. snd y \<le> snd ?pico"
      using first_max_split [of x xs] by blast
    from e have "snd e \<le> snd ?pico"
      unfolding xxs by (rule first_max_greatest)
    then have le: "snd e \<le> series_max por_mes" by (simp add: vp)
    have "fst ?pico \<le> fst e" if eq: "snd e = series_max por_mes"
    proof -
      from e sp xxs have "e \<in> set pre \<or> e = ?pico \<or> e \<in> set post" by auto
      moreover have "e \<notin> set pre" using l eq vp by auto
      moreover have "fst ?pico \<le> fst e" if "e \<in> set post"
      proof -
        have "sorted_wrt (<) (map fst pre @ fst ?pico # map fst post)"
          using strict xxs sp by simp
        with that have "fst ?pico < fst e"
          by (auto simp: sorted_wrt_append)
        then show ?thesis by simp
      qed
      ultimately show ?thesis by auto
    qed
    with le show "snd e \<le> series_max por_mes \<and>
              (snd e = series_max por_mes \<longrightarrow> fst ?pico \<le> fst e)" by blast
  qed
  have f: "sugestoes_por_mes out = por_mes" "mes_pico out = fst ?pico"
    "valor_pico out = series_max por_mes" "pico_index out = i"
    by (simp_all add: out_def)
  show ?thesis
    by (rule exI [of _ out], unfold f) (use run strict c2 c3 c4 c5 c6 c7 in blast)
qed


lemma janeiro_marco_datas:
  "map DATA (frame (fst (analise_temporal pandas_stable \<lparr>frame = janeiro_marco, saved = {}\<rparr>))) =
     [Timestamp \<lparr>year = 1986, month = 1, day = 15\<rparr>, Timestamp \<lparr>year = 1986, month = 3, day = 20\<rparr>]"
  by code_simp

theorem meses_com_registros_counterexample:
  "snd (analise_temporal pandas_stable \<lparr>frame = janeiro_marco, saved = {}\<rparr>) =
     Inr \<lparr>sugestoes_por_mes = [((1986, 1), 1), ((1986, 3), 1)], mes_pico = (1986, 1),
          valor_pico = 1, pico_index = 0\<rparr>"
  by code_simp

theorem meses_com_registros_witness:
  "\<exists>out. snd (analise_temporal pandas_stable \<lparr>frame = janeiro_marco, saved = {}\<rparr>) = Inr out \<and>
         sorted_wrt (<) (map fst (sugestoes_por_mes out)) \<and>
         (mes_pico out, valor_pico out) \<in> set (sugestoes_por_mes out)"
proof -
  have "\<exists>c\<in>set (map DATA (frame (fst (analise_temporal pandas_stable
          \<lparr>frame = janeiro_marco, saved = {}\<rparr>)))). c \<noteq> NaN"
    unfolding janeiro_marco_datas by simp
  then have "\<exists>r\<in>set (frame (fst (analise_temporal pandas_stable
          \<lparr>frame = janeiro_marco, saved = {}\<rparr>))). DATA r \<noteq> NaN"
    by auto
  from meses_com_registros [OF this] show ?thesis by blast
qed

section \<open>What each analysis reads and writes\<close>

lemma map_other_setitem:
  "(\<And>r v. g (put r v) = g r) \<Longrightarrow> map g (setitem put na df col) = map g df"
  by (rule nth_equalityI) (simp_all add: setitem_def nth_enumerate_eq)

lemma setitem_map_frame:
  "(\<And>r v. f (put r v) = put (f r) v) \<Longrightarrow>
   setitem put na (map f df) col = map f (setitem put na df col)"
  by (rule nth_equalityI) (simp_all add: setitem_def nth_enumerate_eq)

lemma analise_temporal_saved:
  "saved (fst (analise_temporal pd w)) =
     (case snd (analise_temporal pd w) of
        Inl e \<Rightarrow> saved w
      | Inr out \<Rightarrow> insert ''evolucao_temporal.png'' (saved w))"
  by (simp add: analise_temporal_def Let_def split: sum.splits)

lemma analise_conteudo_world:
  "fst (analise_conteudo w) =
     (case snd (analise_conteudo w) of
        Inl e \<Rightarrow> w
      | Inr out \<Rightarrow> w\<lparr>saved := insert ''palavras_frequentes.png'' (saved w)\<rparr>)"
  by (simp add: analise_conteudo_def split: sum.splits prod.splits)

lemma top_palavras_cong:
  "map SUGESTAO_TEXTO df = map SUGESTAO_TEXTO df' \<Longrightarrow> top_palavras df = top_palavras df'"
  by (simp add: top_palavras_def contagem_def palavras_filtradas_def palavras_def
      todos_textos_def textos_def)

lemma analise_conteudo_cong:
  "map SUGESTAO_TEXTO (frame w) = map SUGESTAO_TEXTO (frame w') \<Longrightarrow>
   snd (analise_conteudo w) = snd (analise_conteudo w')"
  using top_palavras_cong [of "frame w" "frame w'"]
  by (simp add: analise_conteudo_def split: sum.splits prod.splits)

lemma analise_temporal_cong:
  assumes "map DATA (frame w) = map DATA (frame w')"
  shows "snd (analise_temporal pd w) = snd (analise_temporal pd w')"
proof -
  from assms have len: "length (frame w) = length (frame w')" by (metis length_map)
  show ?thesis unfolding analise_temporal_snd assms len ..
qed

lemma analise_demografica_cong:
  assumes "map SEXO (frame w) = map SEXO (frame w')"
    and "map FAIXA_ETARIA (frame w) = map FAIXA_ETARIA (frame w')"
    and "map INSTRUCAO (frame w) = map INSTRUCAO (frame w')"
    and "map ESTADO_CIVIL (frame w) = map ESTADO_CIVIL (frame w')"
  shows "snd (analise_demografica pd w) = snd (analise_demografica pd w')"
proof -
  from assms(1) have "frame w = [] \<longleftrightarrow> frame w' = []" by (metis map_is_Nil_conv)
  with assms show ?thesis by (simp add: analise_demografica_eq)
qed

lemma analise_geografica_cong:
  "map UF (frame w) = map UF (frame w') \<Longrightarrow>
   snd (analise_geografica pd w) = snd (analise_geografica pd w')"
  by (simp add: analise_geografica_eq)

text \<open>The columns of the table after each analysis.\<close>

lemma demografica_columns:
  "map SEXO (frame (fst (analise_demografica pd w))) = fillna nao_informado (map SEXO (frame w))"
  "map FAIXA_ETARIA (frame (fst (analise_demografica pd w))) =
     fillna nao_informado (map FAIXA_ETARIA (frame w))"
  "map INSTRUCAO (frame (fst (analise_demografica pd w))) =
     fillna nao_informado (map INSTRUCAO (frame w))"
  "map ESTADO_CIVIL (frame (fst (analise_demografica pd w))) =
     fillna nao_informado (map ESTADO_CIVIL (frame w))"
  "map UF (frame (fst (analise_demografica pd w))) = map UF (frame w)"
  "map DATA (frame (fst (analise_demografica pd w))) = map DATA (frame w)"
  "map SUGESTAO_TEXTO (frame (fst (analise_demografica pd w))) = map SUGESTAO_TEXTO (frame w)"
  by (simp_all add: analise_demografica_eq fillna_def comp_def)

lemma geografica_columns:
  "map SEXO (frame (fst (analise_geografica pd w))) = map SEXO (frame w)"
  "map FAIXA_ETARIA (frame (fst (analise_geografica pd w))) = map FAIXA_ETARIA (frame w)"
  "map INSTRUCAO (frame (fst (analise_geografica pd w))) = map INSTRUCAO (frame w)"
  "map ESTADO_CIVIL (frame (fst (analise_geografica pd w))) = map ESTADO_CIVIL (frame w)"
  "map UF (frame (fst (analise_geografica pd w))) = fillna nao_informado (map UF (frame w))"
  "map DATA (frame (fst (analise_geografica pd w))) = map DATA (frame w)"
  "map SUGESTAO_TEXTO (frame (fst (analise_geografica pd w))) = map SUGESTAO_TEXTO (frame w)"
  by (simp_all add: analise_geografica_eq fillna_def comp_def)

lemma temporal_columns:
  "map SEXO (frame (fst (analise_temporal pd w))) = map SEXO (frame w)"
  "map FAIXA_ETARIA (frame (fst (analise_temporal pd w))) = map FAIXA_ETARIA (frame w)"
  "map INSTRUCAO (frame (fst (analise_temporal pd w))) = map INSTRUCAO (frame w)"
  "map ESTADO_CIVIL (frame (fst (analise_temporal pd w))) = map ESTADO_CIVIL (frame w)"
  "map UF (frame (fst (analise_temporal pd w))) = map UF (frame w)"
  "map SUGESTAO_TEXTO (frame (fst (analise_temporal pd w))) = map SUGESTAO_TEXTO (frame w)"
  by (simp_all add: analise_temporal_frame map_other_setitem)

lemma conteudo_frame: "frame (fst (analise_conteudo w)) = frame w"
  by (simp add: analise_conteudo_world split: sum.splits)

lemma nth_map_eq: "map f xs = map f ys \<Longrightarrow> i < length xs \<Longrightarrow> f (xs ! i) = f (ys ! i)"
  by (metis length_map nth_map)

lemma frame_eqI:
  fixes df df' :: dataset
  assumes "map SEXO df = map SEXO df'" "map FAIXA_ETARIA df = map FAIXA_ETARIA df'"
    "map INSTRUCAO df = map INSTRUCAO df'" "map ESTADO_CIVIL df = map ESTADO_CIVIL df'"
    "map UF df = map UF df'" "map DATA df = map DATA df'"
    "map SUGESTAO_TEXTO df = map SUGESTAO_TEXTO df'"
  shows "df = df'"
proof (rule nth_equalityI)
  show "length df = length df'" using assms(1) by (metis length_map)
  fix i assume i: "i < length df"
  show "df ! i = df' ! i"
    using assms [THEN nth_map_eq, OF i] by (intro row.equality) simp_all
qed


lemma frame_lengths:
  "length (frame (fst (analise_demografica pd w))) = length (frame w)"
  "length (frame (fst (analise_geografica pd w))) = length (frame w)"
  "length (frame (fst (analise_temporal pd w))) = length (frame w)"
  by (simp_all add: analise_demografica_eq analise_geografica_eq analise_temporal_frame
      length_setitem)

lemma temporal_DATA_cong:
  assumes "map DATA (frame w) = map DATA (frame w')"
  shows "map DATA (frame (fst (analise_temporal pd w))) =
         map DATA (frame (fst (analise_temporal pd w')))"
proof -
  from assms have len: "length (frame w) = length (frame w')" by (metis length_map)
  show ?thesis unfolding analise_temporal_DATA assms len ..
qed

lemma saved_after:
  "saved (fst (analise_demografica pd w)) = insert ''perfil_demografico.png'' (saved w)"
  "saved (fst (analise_geografica pd w)) = insert ''distribuicao_geografica.png'' (saved w)"
  "saved (fst (analise_conteudo w)) =
     (case snd (analise_conteudo w) of
        Inl e \<Rightarrow> saved w
      | Inr out \<Rightarrow> insert ''palavras_frequentes.png'' (saved w))"
  by (simp_all add: analise_demografica_eq analise_geografica_eq analise_conteudo_world
      split: sum.splits)

text \<open>An analysis returns the same after another analysis has run.\<close>

lemma independent_results:
  "snd (analise_geografica pd (fst (analise_demografica pd w))) = snd (analise_geografica pd w)"
  "snd (analise_temporal pd (fst (analise_demografica pd w))) = snd (analise_temporal pd w)"
  "snd (analise_conteudo (fst (analise_demografica pd w))) = snd (analise_conteudo w)"
  "snd (analise_demografica pd (fst (analise_geografica pd w))) = snd (analise_demografica pd w)"
  "snd (analise_temporal pd (fst (analise_geografica pd w))) = snd (analise_temporal pd w)"
  "snd (analise_conteudo (fst (analise_geografica pd w))) = snd (analise_conteudo w)"
  "snd (analise_demografica pd (fst (analise_temporal pd w))) = snd (analise_demografica pd w)"
  "snd (analise_geografica pd (fst (analise_temporal pd w))) = snd (analise_geografica pd w)"
  "snd (analise_conteudo (fst (analise_temporal pd w))) = snd (analise_conteudo w)"
  "snd (analise_demografica pd (fst (analise_conteudo w))) = snd (analise_demografica pd w)"
  "snd (analise_geografica pd (fst (analise_conteudo w))) = snd (analise_geografica pd w)"
  "snd (analise_temporal pd (fst (analise_conteudo w))) = snd (analise_temporal pd w)"
  by (rule analise_geografica_cong analise_temporal_cong analise_conteudo_cong
        analise_demografica_cong;
      simp add: demografica_columns geografica_columns temporal_columns conteudo_frame)+

lemma chamar_independent:
  "a \<noteq> b \<Longrightarrow> snd (chamar pd b (fst (chamar pd a w))) = snd (chamar pd b w)"
  by (cases a; cases b) (simp_all add: lift_saida_def independent_results)

lemma temporal_DATA_after:
  "map DATA (frame (fst (analise_temporal pd (fst (analise_demografica pd w))))) =
     map DATA (frame (fst (analise_temporal pd w)))"
  "map DATA (frame (fst (analise_temporal pd (fst (analise_geografica pd w))))) =
     map DATA (frame (fst (analise_temporal pd w)))"
  by (rule temporal_DATA_cong, simp add: demografica_columns geografica_columns)+

lemma frames_commute:
  "frame (fst (analise_demografica pd (fst (analise_geografica pd w)))) =
     frame (fst (analise_geografica pd (fst (analise_demografica pd w))))"
  "frame (fst (analise_demografica pd (fst (analise_temporal pd w)))) =
     frame (fst (analise_temporal pd (fst (analise_demografica pd w))))"
  "frame (fst (analise_geografica pd (fst (analise_temporal pd w)))) =
     frame (fst (analise_temporal pd (fst (analise_geografica pd w))))"
  by (rule frame_eqI;
      simp add: demografica_columns geografica_columns temporal_columns temporal_DATA_after)+


lemma frames_after_conteudo:
  "frame (fst (analise_demografica pd (fst (analise_conteudo w)))) =
     frame (fst (analise_demografica pd w))"
  "frame (fst (analise_geografica pd (fst (analise_conteudo w)))) =
     frame (fst (analise_geografica pd w))"
  "frame (fst (analise_temporal pd (fst (analise_conteudo w)))) =
     frame (fst (analise_temporal pd w))"
  by (simp_all add: analise_demografica_eq analise_geografica_eq analise_temporal_frame
      conteudo_frame)

lemma chamar_frame_commute:
  "frame (fst (chamar pd a (fst (chamar pd b w)))) =
   frame (fst (chamar pd b (fst (chamar pd a w))))"
  by (cases a; cases b)
     (simp_all add: lift_saida_def conteudo_frame frames_commute frames_after_conteudo)

lemma chamar_saved:
  "saved (fst (chamar pd a w)) =
     (case a of
        Demografica \<Rightarrow> insert ''perfil_demografico.png'' (saved w)
      | Geografica \<Rightarrow> insert ''distribuicao_geografica.png'' (saved w)
      | Temporal \<Rightarrow> (case snd (chamar pd a w) of Inl e \<Rightarrow> saved w
                     | Inr out \<Rightarrow> insert ''evolucao_temporal.png'' (saved w))
      | Conteudo \<Rightarrow> (case snd (chamar pd a w) of Inl e \<Rightarrow> saved w
                     | Inr out \<Rightarrow> insert ''palavras_frequentes.png'' (saved w)))"
  by (cases a) (simp_all add: lift_saida_def saved_after analise_temporal_saved split: sum.splits)

lemma chamar_saved_commute:
  assumes "a \<noteq> b"
  shows "saved (fst (chamar pd a (fst (chamar pd b w)))) =
         saved (fst (chamar pd b (fst (chamar pd a w))))"
proof -
  have ab: "snd (chamar pd a (fst (chamar pd b w))) = snd (chamar pd a w)"
    using assms by (simp add: chamar_independent)
  have ba: "snd (chamar pd b (fst (chamar pd a w))) = snd (chamar pd b w)"
    using assms by (simp add: chamar_independent)
  show ?thesis
    unfolding chamar_saved [of pd a "fst (chamar pd b w)"] chamar_saved [of pd b "fst (chamar pd a w)"]
      ab ba chamar_saved [of pd b w] chamar_saved [of pd a w]
    by (cases a; cases b) (auto split: sum.splits)
qed

lemma chamar_commute:
  "fst (chamar pd a (fst (chamar pd b w))) = fst (chamar pd b (fst (chamar pd a w)))"
proof (cases "a = b")
  case True
  then show ?thesis by simp
next
  case False
  show ?thesis
    by (rule world.equality) (simp_all add: chamar_frame_commute chamar_saved_commute [OF False])
qed


section \<open>The analyses in any order\<close>

lemma executar_returns:
  assumes "distinct as" and "\<forall>a\<in>set as. \<exists>out. snd (chamar pd a w) = Inr out"
  shows "executar pd as w =
           (fold (\<lambda>a v. fst (chamar pd a v)) as w,
            Inr (map (\<lambda>a. projr (snd (chamar pd a w))) as))"
  using assms
proof (induction as arbitrary: w)
  case Nil
  then show ?case by simp
next
  case (Cons a as)
  obtain wa ra where a: "chamar pd a w = (wa, ra)" by (cases "chamar pd a w")
  from Cons.prems a obtain out where ra: "ra = Inr out" by auto
  have same: "snd (chamar pd b wa) = snd (chamar pd b w)" if "b \<in> set as" for b
  proof -
    from that Cons.prems(1) have "a \<noteq> b" by auto
    from chamar_independent [OF this, of pd w] a show ?thesis by simp
  qed
  with Cons.prems have "\<forall>b\<in>set as. \<exists>out. snd (chamar pd b wa) = Inr out" by simp
  with Cons.prems(1) have
    "executar pd as wa =
       (fold (\<lambda>a v. fst (chamar pd a v)) as wa,
        Inr (map (\<lambda>a. projr (snd (chamar pd a wa))) as))"
    by (intro Cons.IH) simp_all
  moreover have "map (\<lambda>a. projr (snd (chamar pd a wa))) as =
      map (\<lambda>a. projr (snd (chamar pd a w))) as"
    by (rule map_cong) (simp_all add: same)
  ultimately show ?case using a ra by simp
qed

lemma executar_each_returns:
  assumes "distinct as" and "executar pd as w = (w1, Inr outs)"
  shows "\<forall>a\<in>set as. \<exists>out. snd (chamar pd a w) = Inr out"
  using assms
proof (induction as arbitrary: w w1 outs)
  case Nil
  then show ?case by simp
next
  case (Cons a as)
  obtain wa ra where a: "chamar pd a w = (wa, ra)" by (cases "chamar pd a w")
  with Cons.prems(2) obtain out where ra: "ra = Inr out" by (cases ra) auto
  obtain wb rb where b: "executar pd as wa = (wb, rb)" by (cases "executar pd as wa")
  with Cons.prems(2) a ra obtain os where rb: "rb = Inr os" by (cases rb) auto
  from Cons.IH [of wa wb os] Cons.prems(1) b rb
  have "\<forall>b\<in>set as. \<exists>out. snd (chamar pd b wa) = Inr out" by simp
  moreover have "snd (chamar pd b wa) = snd (chamar pd b w)" if "b \<in> set as" for b
  proof -
    from that Cons.prems(1) have "a \<noteq> b" by auto
    from chamar_independent [OF this, of pd w] a show ?thesis by simp
  qed
  ultimately have "\<forall>b\<in>set as. \<exists>out. snd (chamar pd b w) = Inr out" by simp
  with a ra show ?case by simp
qed

lemma fold_chamar_permuted:
  assumes "mset bs = mset as"
  shows "fold (\<lambda>a v. fst (chamar pd a v)) bs w = fold (\<lambda>a v. fst (chamar pd a v)) as w"
proof -
  have "fold (\<lambda>a v. fst (chamar pd a v)) bs = fold (\<lambda>a v. fst (chamar pd a v)) as"
    by (rule fold_multiset_equiv) (simp_all add: assms fun_eq_iff chamar_commute)
  then show ?thesis by simp
qed

text \<open>
  C2, as the code has it. The analyses write to the table they are given:
  \<^verbatim>\<open>analise_demografica\<close> assigns the columns of sex, age bracket, education and
  marital status with their missing values filled, \<^verbatim>\<open>analise_geografica\<close> does so for
  the state, \<^verbatim>\<open>analise_temporal\<close> replaces the column of dates by the parsed dates, and
  \<^verbatim>\<open>analise_conteudo\<close> writes nothing. No analysis reads a column that another one
  writes: when the four analyses, or some of them, return in one order, then in any
  other order they return too, each with the result it has alone on the table as it
  was loaded, and they leave the same table and the same image files.
\<close>

theorem analyses_in_any_order:
  assumes "distinct as" and "mset bs = mset as" and "executar pd as w = (w1, Inr outs)"
  shows "executar pd bs w = (w1, Inr (map (\<lambda>b. projr (snd (chamar pd b w))) bs)) \<and>
         outs = map (\<lambda>a. projr (snd (chamar pd a w))) as"
proof -
  from assms(1,3) have ok: "\<forall>a\<in>set as. \<exists>out. snd (chamar pd a w) = Inr out"
    by (rule executar_each_returns)
  from executar_returns [OF assms(1) ok] assms(3)
  have w1: "w1 = fold (\<lambda>a v. fst (chamar pd a v)) as w"
    and outs: "outs = map (\<lambda>a. projr (snd (chamar pd a w))) as"
    by simp_all
  from assms(1,2) have "distinct bs" by (metis mset_eq_imp_distinct_iff)
  moreover from assms(2) have "set bs = set as" by (metis set_mset_mset)
  ultimately have "executar pd bs w =
           (fold (\<lambda>a v. fst (chamar pd a v)) bs w,
            Inr (map (\<lambda>a. projr (snd (chamar pd a w))) bs))"
    using ok by (intro executar_returns) simp_all
  with w1 outs show ?thesis by (simp add: fold_chamar_permuted [OF assms(2)])
qed


theorem analyses_in_any_order_counterexample:
  "map SEXO (frame \<lparr>frame = [vazia], saved = {}\<rparr>) = [None] \<and>
   map SEXO (frame (fst (analise_demografica pandas_stable \<lparr>frame = [vazia], saved = {}\<rparr>))) =
     [Some nao_informado] \<and>
   frame (fst (analise_demografica pandas_stable \<lparr>frame = [vazia], saved = {}\<rparr>)) \<noteq> [vazia]"
  by (simp add: analise_demografica_eq vazia_def fillna_def)

lemma janeiro_marco_meses:
  "snd (analise_temporal pandas_stable \<lparr>frame = janeiro_marco, saved = {}\<rparr>) =
     Inr \<lparr>sugestoes_por_mes = [((1986, 1), 1), ((1986, 3), 1)], mes_pico = (1986, 1),
          valor_pico = 1, pico_index = 0\<rparr>"
  by code_simp

lemma janeiro_marco_palavras: "palavras_filtradas janeiro_marco = [''povo'', ''direito'', ''povo'', ''direito'']"
  by code_simp

lemma janeiro_marco_returns:
  "\<forall>a\<in>set [Demografica, Geografica, Temporal, Conteudo].
     \<exists>out. snd (chamar pandas_stable a \<lparr>frame = janeiro_marco, saved = {}\<rparr>) = Inr out"
proof -
  have "\<exists>out. snd (chamar pandas_stable a \<lparr>frame = janeiro_marco, saved = {}\<rparr>) = Inr out" for a
  proof (cases a)
    case Demografica
    then show ?thesis
      by (simp add: lift_saida_def analise_demografica_eq janeiro_marco_def)
  next
    case Geografica
    then show ?thesis by (simp add: lift_saida_def analise_geografica_eq)
  next
    case Temporal
    then show ?thesis by (simp add: lift_saida_def janeiro_marco_meses)
  next
    case Conteudo
    then show ?thesis
      by (simp add: lift_saida_def analise_conteudo_nonempty janeiro_marco_palavras)
  qed
  then show ?thesis by blast
qed

theorem analyses_in_any_order_witness:
  "\<exists>w1 outs.
     executar pandas_stable [Demografica, Geografica, Temporal, Conteudo]
       \<lparr>frame = janeiro_marco, saved = {}\<rparr> = (w1, Inr outs) \<and>
     executar pandas_stable [Conteudo, Temporal, Geografica, Demografica]
       \<lparr>frame = janeiro_marco, saved = {}\<rparr> = (w1, Inr (rev outs))"
proof -
  let ?w = "\<lparr>frame = janeiro_marco, saved = {}\<rparr>"
  let ?as = "[Demografica, Geografica, Temporal, Conteudo]"
  let ?bs = "[Conteudo, Temporal, Geografica, Demografica]"
  have d: "distinct ?as" by simp
  have m: "mset ?bs = mset ?as" by simp
  obtain w1 outs where run: "executar pandas_stable ?as ?w = (w1, Inr outs)"
    using executar_returns [OF d janeiro_marco_returns] by blast
  from analyses_in_any_order [OF d m run]
  have "executar pandas_stable ?bs ?w = (w1, Inr (rev outs))" by simp
  with run show ?thesis by blast
qed

section \<open>A second run\<close>

lemma fillna_fillna: "fillna v (fillna v col) = fillna v col"
  by (induction col) (auto simp: fillna_def split: option.splits)

lemma aligned_self:
  "length ds = n \<Longrightarrow> map (\<lambda>i. if i < length ds then ds ! i else None) [0..<n] = ds"
  by (rule nth_equalityI) simp_all

lemma temporal_DATA_again:
  assumes "keeps_datetimes pd"
  shows "map DATA (frame (fst (analise_temporal pd (fst (analise_temporal pd w))))) =
         map DATA (frame (fst (analise_temporal pd w)))"
proof -
  define ds where "ds = map (\<lambda>i. if i < length (to_datetime pd (map DATA (frame w)))
                            then to_datetime pd (map DATA (frame w)) ! i else None)
                  [0..<length (frame w)]"
  let ?w1 = "fst (analise_temporal pd w)"
  have d1: "map DATA (frame ?w1) = map cell_of ds"
    unfolding ds_def by (rule analise_temporal_DATA)
  have len: "length ds = length (frame ?w1)" by (simp add: ds_def frame_lengths)
  have td: "to_datetime pd (map DATA (frame ?w1)) = ds"
    using assms by (simp add: d1 keeps_datetimes_def)
  have "map DATA (frame (fst (analise_temporal pd ?w1))) =
      map cell_of (map (\<lambda>i. if i < length ds then ds ! i else None) [0..<length (frame ?w1)])"
    unfolding analise_temporal_DATA [of pd ?w1] td ..
  also have "\<dots> = map cell_of ds" by (simp only: aligned_self [OF len])
  finally show ?thesis by (simp add: d1)
qed

lemma temporal_result_again:
  assumes "keeps_datetimes pd"
  shows "snd (analise_temporal pd (fst (analise_temporal pd w))) = snd (analise_temporal pd w)"
proof -
  define ds where "ds = map (\<lambda>i. if i < length (to_datetime pd (map DATA (frame w)))
                            then to_datetime pd (map DATA (frame w)) ! i else None)
                  [0..<length (frame w)]"
  let ?w1 = "fst (analise_temporal pd w)"
  have d1: "map DATA (frame ?w1) = map cell_of ds"
    unfolding ds_def by (rule analise_temporal_DATA)
  have len: "length ds = length (frame ?w1)" by (simp add: ds_def frame_lengths)
  have td: "to_datetime pd (map DATA (frame ?w1)) = ds"
    using assms by (simp add: d1 keeps_datetimes_def)
  have again: "map (\<lambda>i. if i < length (to_datetime pd (map DATA (frame ?w1)))
                            then to_datetime pd (map DATA (frame ?w1)) ! i else None)
                  [0..<length (frame ?w1)] = ds"
    unfolding td by (rule aligned_self [OF len])
  show ?thesis
    unfolding analise_temporal_snd [of pd ?w1] again
    unfolding analise_temporal_snd [of pd w] ds_def ..
qed

lemma results_again:
  "snd (analise_demografica pd (fst (analise_demografica pd w))) = snd (analise_demografica pd w)"
  "snd (analise_geografica pd (fst (analise_geografica pd w))) = snd (analise_geografica pd w)"
  "snd (analise_conteudo (fst (analise_conteudo w))) = snd (analise_conteudo w)"
proof -
  have "frame (fst (analise_demografica pd w)) = [] \<longleftrightarrow> frame w = []"
    using frame_lengths(1) [of pd w] by (metis length_0_conv)
  then show "snd (analise_demografica pd (fst (analise_demografica pd w))) =
      snd (analise_demografica pd w)"
    unfolding analise_demografica_eq [of pd "fst (analise_demografica pd w)"] demografica_columns
      fillna_fillna
    by (simp add: analise_demografica_eq)
  show "snd (analise_geografica pd (fst (analise_geografica pd w))) = snd (analise_geografica pd w)"
    unfolding analise_geografica_eq [of pd "fst (analise_geografica pd w)"] geografica_columns
      fillna_fillna
    by (simp add: analise_geografica_eq)
  show "snd (analise_conteudo (fst (analise_conteudo w))) = snd (analise_conteudo w)"
    by (rule analise_conteudo_cong) (simp add: conteudo_frame)
qed

lemma chamar_result_again:
  "keeps_datetimes pd \<Longrightarrow> snd (chamar pd a (fst (chamar pd a w))) = snd (chamar pd a w)"
  by (cases a) (simp_all add: lift_saida_def results_again temporal_result_again)


lemma frames_again:
  "frame (fst (analise_demografica pd (fst (analise_demografica pd w)))) =
     frame (fst (analise_demografica pd w))"
  "frame (fst (analise_geografica pd (fst (analise_geografica pd w)))) =
     frame (fst (analise_geografica pd w))"
  by (rule frame_eqI; simp add: demografica_columns geografica_columns fillna_fillna)+

lemma temporal_frame_again:
  assumes "keeps_datetimes pd"
  shows "frame (fst (analise_temporal pd (fst (analise_temporal pd w)))) =
         frame (fst (analise_temporal pd w))"
  by (rule frame_eqI; simp add: temporal_columns temporal_DATA_again [OF assms])

lemma chamar_again:
  assumes "keeps_datetimes pd"
  shows "fst (chamar pd a (fst (chamar pd a w))) = fst (chamar pd a w)"
proof (rule world.equality)
  show "frame (fst (chamar pd a (fst (chamar pd a w)))) = frame (fst (chamar pd a w))"
    by (cases a)
       (simp_all add: lift_saida_def frames_again temporal_frame_again [OF assms] conteudo_frame)
  show "saved (fst (chamar pd a (fst (chamar pd a w)))) = saved (fst (chamar pd a w))"
    unfolding chamar_saved [of pd a "fst (chamar pd a w)"] chamar_result_again [OF assms]
    unfolding chamar_saved [of pd a w]
    by (cases a) (auto split: sum.splits)
qed simp

lemma chamar_fold_commute:
  "fst (chamar pd a (fold (\<lambda>a v. fst (chamar pd a v)) as w)) =
   fold (\<lambda>a v. fst (chamar pd a v)) as (fst (chamar pd a w))"
proof (induction as arbitrary: w)
  case Nil
  then show ?case by simp
next
  case (Cons b as)
  show ?case by (simp add: Cons.IH chamar_commute [of pd a b w])
qed

lemma fold_chamar_again:
  assumes "keeps_datetimes pd"
  shows "fold (\<lambda>a v. fst (chamar pd a v)) as (fold (\<lambda>a v. fst (chamar pd a v)) as w) =
         fold (\<lambda>a v. fst (chamar pd a v)) as w"
proof (induction as arbitrary: w)
  case Nil
  then show ?case by simp
next
  case (Cons a as)
  have "fold (\<lambda>a v. fst (chamar pd a v)) (a # as) (fold (\<lambda>a v. fst (chamar pd a v)) (a # as) w) =
        fold (\<lambda>a v. fst (chamar pd a v)) as
          (fst (chamar pd a (fold (\<lambda>a v. fst (chamar pd a v)) as (fst (chamar pd a w)))))"
    by simp
  also have "\<dots> = fold (\<lambda>a v. fst (chamar pd a v)) as
          (fold (\<lambda>a v. fst (chamar pd a v)) as (fst (chamar pd a (fst (chamar pd a w)))))"
    by (simp only: chamar_fold_commute)
  also have "\<dots> = fold (\<lambda>a v. fst (chamar pd a v)) as
          (fold (\<lambda>a v. fst (chamar pd a v)) as (fst (chamar pd a w)))"
    by (simp only: chamar_again [OF assms])
  also have "\<dots> = fold (\<lambda>a v. fst (chamar pd a v)) as (fst (chamar pd a w))"
    by (rule Cons.IH)
  finally show ?case by simp
qed

lemma chamar_after_others:
  "a \<notin> set bs \<Longrightarrow>
   snd (chamar pd a (fold (\<lambda>a v. fst (chamar pd a v)) bs w)) = snd (chamar pd a w)"
proof (induction bs arbitrary: w)
  case Nil
  then show ?case by simp
next
  case (Cons b bs)
  then have "snd (chamar pd a (fold (\<lambda>a v. fst (chamar pd a v)) bs (fst (chamar pd b w)))) =
      snd (chamar pd a (fst (chamar pd b w)))"
    by simp
  also have "\<dots> = snd (chamar pd a w)"
    using Cons.prems by (intro chamar_independent) auto
  finally show ?case by simp
qed

lemma chamar_after_all:
  assumes "keeps_datetimes pd" and "distinct as" and "a \<in> set as"
  shows "snd (chamar pd a (fold (\<lambda>a v. fst (chamar pd a v)) as w)) = snd (chamar pd a w)"
proof -
  let ?step = "\<lambda>a v. fst (chamar pd a v)"
  from assms(3) have m: "mset as = mset (a # remove1 a as)" by simp
  have "fold ?step as w = fold ?step (a # remove1 a as) w"
    by (rule fold_chamar_permuted [OF m])
  also have "\<dots> = fst (chamar pd a (fold ?step (remove1 a as) w))"
    by (simp add: chamar_fold_commute)
  finally have "snd (chamar pd a (fold ?step as w)) =
      snd (chamar pd a (fst (chamar pd a (fold ?step (remove1 a as) w))))"
    by simp
  also have "\<dots> = snd (chamar pd a (fold ?step (remove1 a as) w))"
    by (rule chamar_result_again [OF assms(1)])
  also have "\<dots> = snd (chamar pd a w)"
    using assms(2) by (intro chamar_after_others) simp
  finally show ?thesis .
qed

text \<open>
  C9. With a library whose \<^verbatim>\<open>to_datetime\<close> returns a column of dates as it is: when
  the four analyses (or any of them, each once, in any order) have returned, calling
  them again in the same order on the same table, as the first run left it, returns
  the same results, the tables of counts and the series of months included, and
  leaves the table and the image files as they were.
\<close>

theorem second_run_identical:
  assumes "keeps_datetimes pd" and "distinct as" and "executar pd as w = (w1, Inr outs)"
  shows "executar pd as w1 = (w1, Inr outs)"
proof -
  let ?step = "\<lambda>a v. fst (chamar pd a v)"
  from assms(2,3) have ok: "\<forall>a\<in>set as. \<exists>out. snd (chamar pd a w) = Inr out"
    by (rule executar_each_returns)
  from executar_returns [OF assms(2) ok] assms(3)
  have w1: "w1 = fold ?step as w"
    and outs: "outs = map (\<lambda>a. projr (snd (chamar pd a w))) as"
    by simp_all
  have same: "snd (chamar pd a w1) = snd (chamar pd a w)" if "a \<in> set as" for a
    unfolding w1 using assms(1,2) that by (rule chamar_after_all)
  with ok have ok1: "\<forall>a\<in>set as. \<exists>out. snd (chamar pd a w1) = Inr out" by simp
  have "executar pd as w1 =
      (fold ?step as w1, Inr (map (\<lambda>a. projr (snd (chamar pd a w1))) as))"
    by (rule executar_returns [OF assms(2) ok1])
  moreover have "fold ?step as w1 = w1"
    unfolding w1 by (rule fold_chamar_again [OF assms(1)])
  moreover have "map (\<lambda>a. projr (snd (chamar pd a w1))) as = outs"
    unfolding outs by (rule map_cong) (simp_all add: same)
  ultimately show ?thesis by simp
qed

section \<open>The order of equal counts\<close>











section \<open>The second run on an example\<close>

lemma keeps_datetimes_stable: "keeps_datetimes pandas_stable"
proof -
  have "(case cell_of d of NaN \<Rightarrow> None | Raw s \<Rightarrow> parse_dmy s | Timestamp t \<Rightarrow> Some t) = d" for d
    by (cases d) (simp_all add: cell_of_def)
  then have "to_datetime_dmy (map cell_of ds) = ds" for ds
    by (simp add: to_datetime_dmy_def comp_def)
  then show ?thesis by (simp add: keeps_datetimes_def pandas_stable_def)
qed

theorem second_run_identical_witness:
  "keeps_datetimes pandas_stable \<and>
   (\<exists>w1 outs.
      executar pandas_stable [Demografica, Geografica, Temporal, Conteudo]
        \<lparr>frame = janeiro_marco, saved = {}\<rparr> = (w1, Inr outs) \<and>
      executar pandas_stable [Demografica, Geografica, Temporal, Conteudo] w1 = (w1, Inr outs))"
proof -
  let ?w = "\<lparr>frame = janeiro_marco, saved = {}\<rparr>"
  let ?as = "[Demografica, Geografica, Temporal, Conteudo]"
  have d: "distinct ?as" by simp
  obtain w1 outs where run: "executar pandas_stable ?as ?w = (w1, Inr outs)"
    using executar_returns [OF d janeiro_marco_returns] by blast
  from second_run_identical [OF keeps_datetimes_stable d run] run keeps_datetimes_stable
  show ?thesis by blast
qed

section \<open>Dates that are not parsed\<close>

lemma main_returns:
  assumes "main pd fs = Inr r" and "analyses r = Some (Inr rel)"
  shows "\<exists>df0. read_csv fs = Returns df0 \<and> snd (analisar pd df0) = Inr rel"
proof -
  from assms obtain df0 lines where
    load: "carregar_dados fs = Inr (Some df0, lines)"
    by (auto simp: main_def split: sum.splits option.splits prod.splits)
  then have "read_csv fs = Returns df0"
    by (auto simp: carregar_dados_def carregar_try_def split: if_splits read_result.splits)
  moreover from assms load have "snd (analisar pd df0) = Inr rel"
    by (auto simp: main_def split: sum.splits prod.splits)
  ultimately show ?thesis by blast
qed

lemma analisar_parts:
  assumes "snd (analisar pd df0) = Inr rel"
  shows "faltantes rel = analise_preliminar df0 \<and>
         snd (analise_temporal pd \<lparr>frame = df0, saved = {}\<rparr>) = Inr (temporal rel)"
proof -
  let ?w0 = "\<lparr>frame = df0, saved = {}\<rparr>"
  let ?w1 = "fst (analise_demografica pd ?w0)"
  let ?w2 = "fst (analise_geografica pd ?w1)"
  from assms have "faltantes rel = analise_preliminar df0 \<and>
      snd (analise_temporal pd ?w2) = Inr (temporal rel)"
    by (auto simp: analisar_def Let_def split: sum.splits prod.splits)
  moreover have "snd (analise_temporal pd ?w2) = snd (analise_temporal pd ?w0)"
    by (simp only: independent_results)
  ultimately show ?thesis by simp
qed

lemma preliminar_DATA:
  "(''DATA'', n) \<in> set (analise_preliminar df0) \<longleftrightarrow>
     0 < n \<and> n = length (filter (\<lambda>r. DATA r = NaN) df0)"
  by (auto simp: analise_preliminar_def isnull_sum_def)

lemma length_dropna_periods:
  "length (dropna (map (map_option to_period_M) ds)) =
   length (filter (\<lambda>c. c \<noteq> NaN) (map cell_of ds))"
  by (induction ds) (auto simp: cell_of_def split: option.splits)

lemma temporal_sum:
  assumes "snd (analise_temporal pd w) = Inr out"
  shows "sum_list (map snd (sugestoes_por_mes out)) =
         length (filter (\<lambda>r. DATA r \<noteq> NaN) (frame (fst (analise_temporal pd w))))"
proof -
  define ds where "ds = map (\<lambda>i. if i < length (to_datetime pd (map DATA (frame w)))
                            then to_datetime pd (map DATA (frame w)) ! i else None)
                  [0..<length (frame w)]"
  have cells: "map DATA (frame (fst (analise_temporal pd w))) = map cell_of ds"
    unfolding ds_def by (rule analise_temporal_DATA)
  from assms have "sugestoes_por_mes out = groupby_size (map (map_option to_period_M) ds)"
    unfolding analise_temporal_snd ds_def [symmetric]
    by (auto split: list.splits sum.splits)
  then have "sum_list (map snd (sugestoes_por_mes out)) =
      length (filter (\<lambda>c. c \<noteq> NaN) (map cell_of ds))"
    by (simp only: groupby_size_sum length_dropna_periods)
  also have "\<dots> = length (filter (\<lambda>c. c \<noteq> NaN) (map DATA (frame (fst (analise_temporal pd w)))))"
    by (simp only: cells)
  finally show ?thesis by (simp add: filter_map comp_def)
qed

text \<open>
  C8, as the code has it. In a run of the script in which all the analyses return: a
  value of the date column that \<^verbatim>\<open>to_datetime\<close> does not parse is missing in the column
  after \<^verbatim>\<open>analise_temporal\<close>, and belongs to no month: the counts of the months add up to
  the number of rows whose date is not missing after the conversion. The figures of
  \<^verbatim>\<open>analise_preliminar\<close> are those of the table as it was loaded, before the conversion:
  the date column is listed there when, and with the number of, the values that were
  missing at load; a value that is present and is not parsed is not counted there.
\<close>

theorem datas_nao_convertidas:
  assumes "main pd fs = Inr r" and "analyses r = Some (Inr rel)"
  shows "\<exists>df0. read_csv fs = Returns df0 \<and>
           faltantes rel = analise_preliminar df0 \<and>
           (\<forall>n. (''DATA'', n) \<in> set (faltantes rel) \<longleftrightarrow>
                  0 < n \<and> n = length (filter (\<lambda>r. DATA r = NaN) df0)) \<and>
           snd (analise_temporal pd \<lparr>frame = df0, saved = {}\<rparr>) = Inr (temporal rel) \<and>
           map DATA (frame (fst (analise_temporal pd \<lparr>frame = df0, saved = {}\<rparr>))) =
             map cell_of (map (\<lambda>i. if i < length (to_datetime pd (map DATA df0))
                                      then to_datetime pd (map DATA df0) ! i else None)
                            [0..<length df0]) \<and>
           sum_list (map snd (sugestoes_por_mes (temporal rel))) =
             length (filter (\<lambda>r. DATA r \<noteq> NaN)
                       (frame (fst (analise_temporal pd \<lparr>frame = df0, saved = {}\<rparr>))))"
proof -
  from main_returns [OF assms] obtain df0 where
    load: "read_csv fs = Returns df0" and run: "snd (analisar pd df0) = Inr rel"
    by blast
  from analisar_parts [OF run] have
    falt: "faltantes rel = analise_preliminar df0" and
    tmp: "snd (analise_temporal pd \<lparr>frame = df0, saved = {}\<rparr>) = Inr (temporal rel)"
    by simp_all
  have data: "\<forall>n. (''DATA'', n) \<in> set (faltantes rel) \<longleftrightarrow>
                  0 < n \<and> n = length (filter (\<lambda>r. DATA r = NaN) df0)"
    unfolding falt using preliminar_DATA [of _ df0] by blast
  have cells: "map DATA (frame (fst (analise_temporal pd \<lparr>frame = df0, saved = {}\<rparr>))) =
             map cell_of (map (\<lambda>i. if i < length (to_datetime pd (map DATA df0))
                                      then to_datetime pd (map DATA df0) ! i else None)
                            [0..<length df0])"
    using analise_temporal_DATA [of pd "\<lparr>frame = df0, saved = {}\<rparr>"] by simp
  from load falt data tmp cells temporal_sum [OF tmp] show ?thesis by blast
qed

lemma sem_data_main:
  "(case main pandas_stable \<lparr>path_exists = True, read_csv = Returns sem_data\<rparr> of
      Inl e \<Rightarrow> False
    | Inr r \<Rightarrow>
        (case analyses r of
           Some (Inr rel) \<Rightarrow>
             faltantes rel = [(''SEXO'', 2), (''FAIXA ET'' @ [CHR 0xC1] @ ''RIA'', 2),
                              (''INSTRUCAO'', 2), (''ESTADO CIVIL'', 2), (''UF'', 2)] \<and>
             sugestoes_por_mes (temporal rel) = [((1986, 1), 1)]
         | _ \<Rightarrow> False))"
  by code_simp

theorem datas_nao_convertidas_counterexample:
  "map DATA sem_data = [Raw ''15/01/1986'', Raw ''sem data''] \<and>
   to_datetime pandas_stable (map DATA sem_data) =
     [Some \<lparr>year = 1986, month = 1, day = 15\<rparr>, None] \<and>
   (case main pandas_stable \<lparr>path_exists = True, read_csv = Returns sem_data\<rparr> of
      Inl e \<Rightarrow> False
    | Inr r \<Rightarrow>
        (case analyses r of
           Some (Inr rel) \<Rightarrow>
             faltantes rel = [(''SEXO'', 2), (''FAIXA ET'' @ [CHR 0xC1] @ ''RIA'', 2),
                              (''INSTRUCAO'', 2), (''ESTADO CIVIL'', 2), (''UF'', 2)] \<and>
             ''DATA'' \<notin> fst ` set (faltantes rel) \<and>
             sugestoes_por_mes (temporal rel) = [((1986, 1), 1)]
         | _ \<Rightarrow> False))"
proof (intro conjI)
  show "map DATA sem_data = [Raw ''15/01/1986'', Raw ''sem data'']"
    by (simp add: sem_data_def povo_def vazia_def)
  show "to_datetime pandas_stable (map DATA sem_data) =
     [Some \<lparr>year = 1986, month = 1, day = 15\<rparr>, None]"
    by code_simp
  show "(case main pandas_stable \<lparr>path_exists = True, read_csv = Returns sem_data\<rparr> of
      Inl e \<Rightarrow> False
    | Inr r \<Rightarrow>
        (case analyses r of
           Some (Inr rel) \<Rightarrow>
             faltantes rel = [(''SEXO'', 2), (''FAIXA ET'' @ [CHR 0xC1] @ ''RIA'', 2),
                              (''INSTRUCAO'', 2), (''ESTADO CIVIL'', 2), (''UF'', 2)] \<and>
             ''DATA'' \<notin> fst ` set (faltantes rel) \<and>
             sugestoes_por_mes (temporal rel) = [((1986, 1), 1)]
         | _ \<Rightarrow> False))"
    using sem_data_main by (auto split: sum.splits option.splits)
qed

theorem datas_nao_convertidas_witness:
  "\<exists>r rel. main pandas_stable \<lparr>path_exists = True, read_csv = Returns sem_data\<rparr> = Inr r \<and>
            analyses r = Some (Inr rel) \<and>
            faltantes rel = analise_preliminar sem_data \<and>
            snd (analise_temporal pandas_stable \<lparr>frame = sem_data, saved = {}\<rparr>) =
              Inr (temporal rel)"
proof -
  let ?fs = "\<lparr>path_exists = True, read_csv = Returns sem_data\<rparr>"
  obtain r where r: "main pandas_stable ?fs = Inr r"
    using sem_data_main by (cases "main pandas_stable ?fs") simp_all
  with sem_data_main obtain x where x: "analyses r = Some x"
    by (cases "analyses r") simp_all
  with sem_data_main r obtain rel where "x = Inr rel"
    by (cases x) simp_all
  with r x have
    run: "main pandas_stable \<lparr>path_exists = True, read_csv = Returns sem_data\<rparr> = Inr r"
      "analyses r = Some (Inr rel)"
    by simp_all
  from datas_nao_convertidas [OF run] obtain df0 where
    "read_csv \<lparr>path_exists = True, read_csv = Returns sem_data\<rparr> = Returns df0"
    "faltantes rel = analise_preliminar df0"
    "snd (analise_temporal pandas_stable \<lparr>frame = df0, saved = {}\<rparr>) = Inr (temporal rel)"
    by blast
  then have "faltantes rel = analise_preliminar sem_data \<and>
      snd (analise_temporal pandas_stable \<lparr>frame = sem_data, saved = {}\<rparr>) = Inr (temporal rel)"
    by simp
  with run show ?thesis by blast
qed

end
